theory Spec2Isabelle
  imports Complex_Main "HOL-Library.Word" "HOL-Library.Multiset"
begin

section \<open>Go integers\<close>

text \<open>
  The range checker computes with Go's \<^verbatim>\<open>int\<close>. The package assigns
  \<^verbatim>\<open>math.MaxInt64\<close> to an \<^verbatim>\<open>int\<close> variable, which only compiles where
  \<^verbatim>\<open>int\<close> has 64 bits, so \<^verbatim>\<open>int\<close> is a two's complement 64-bit integer here.
  It is modelled as a HOL integer that every arithmetic result is wrapped back into by
  \<open>int64\<close>. Since wrapping commutes with \<open>+\<close> and \<open>-\<close>, one wrap after a sum
  stands for the wrap after each of its additions.
\<close>

definition int64 :: "int \<Rightarrow> int" where
  "int64 x = (x + 2 ^ 63) mod 2 ^ 64 - 2 ^ 63"

definition MaxInt64 :: int where
  "MaxInt64 = 2 ^ 63 - 1"

text \<open>Go's \<^verbatim>\<open>/\<close> on integers truncates towards zero (the divisor is not zero).\<close>

definition quo :: "int \<Rightarrow> int \<Rightarrow> int" where
  "quo a b = sgn a * sgn b * (\<bar>a\<bar> div \<bar>b\<bar>)"

text \<open>\<^verbatim>\<open>uint(x)\<close> of an \<^verbatim>\<open>int\<close>: the same 64 bits read as unsigned.\<close>

definition uint_of_int :: "int \<Rightarrow> int" where
  "uint_of_int x = x mod 2 ^ 64"

text \<open>
  \<^verbatim>\<open>1 << n\<close> on \<^verbatim>\<open>int\<close> for a shift count \<open>n \<ge> 0\<close>: bit \<open>n\<close> of a 64-bit
  word, which is \<open>MinInt64\<close> at 63 and 0 from 64 on. (Go panics on a negative count; the
  package only shifts by the optimizer's result, which is never negative.)
\<close>

definition shl1 :: "int \<Rightarrow> int" where
  "shl1 n = int64 (2 ^ nat n)"

section \<open>The range checker: data\<close>

datatype failure = Panic string | Error string

record Term =
  CID :: "32 word"
  VID :: "32 word"

type_synonym LinearExpression = "Term list"

text \<open>\<^verbatim>\<open>checkedVariable{v, bits}\<close>; the field \<^verbatim>\<open>v\<close> is \<open>cv\<close> here.\<close>

record 'v checkedVariable =
  cv :: 'v
  bits :: int

text \<open>\<^verbatim>\<open>Lookup{NbTable, A}\<close>; the field \<^verbatim>\<open>A\<close> is \<open>members\<close> here.\<close>

record Lookup =
  NbTable :: int
  members :: "LinearExpression list"

record 'v varunaChecker =
  collected :: "'v checkedVariable list"
  closed :: bool
  lookups :: Lookup

text \<open>The zero values \<^verbatim>\<open>Lookup{}\<close> and \<^verbatim>\<open>varunaChecker{}\<close>.\<close>

definition zero_Lookup :: Lookup where
  "zero_Lookup = \<lparr>NbTable = 0, members = []\<rparr>"

definition zero_varunaChecker :: "'v varunaChecker" where
  "zero_varunaChecker = \<lparr>collected = [], closed = False, lookups = zero_Lookup\<rparr>"

section \<open>Check\<close>

definition Check :: "'v varunaChecker \<Rightarrow> 'v \<Rightarrow> int \<Rightarrow> failure + 'v varunaChecker" where
  "Check c x n =
     (if closed c then Inl (Panic ''checker already closed'')
      else Inr (c\<lparr>collected := collected c @ [\<lparr>cv = x, bits = n\<rparr>]\<rparr>))"

section \<open>The width optimizer\<close>

text \<open>
  \<^verbatim>\<open>decompSize\<close> divides by the limb size; the division panics in Go when the limb
  size is zero, which the callers that can pass zero check before they call it.
\<close>

definition decompSize :: "int \<Rightarrow> int \<Rightarrow> int" where
  "decompSize varSize limbSize = int64 (quo (int64 (varSize + limbSize - 1)) limbSize)"

definition nbR1CSConstraints :: "int \<Rightarrow> 'v checkedVariable list \<Rightarrow> int" where
  "nbR1CSConstraints baseLength cs =
     (let nbDecomposed = foldl (\<lambda>acc c. int64 (acc + decompSize (bits c) baseLength)) 0 cs;
          eqs = int (length cs);
          nbRight = nbDecomposed;
          nbleft = shl1 baseLength
      in int64 (nbleft + nbRight + eqs + 1))"

text \<open>One iteration of the scan: the pair is \<^verbatim>\<open>(min, minVal)\<close>.\<close>

definition optimalWidth_step ::
  "(int \<Rightarrow> 'v checkedVariable list \<Rightarrow> int) \<Rightarrow> 'v checkedVariable list \<Rightarrow> int \<times> int \<Rightarrow> int \<Rightarrow> int \<times> int"
where
  "optimalWidth_step countFn cs st j =
     (let current = countFn j cs
      in if current < fst st then (current, j) else st)"

definition optimalWidth ::
  "(int \<Rightarrow> 'v checkedVariable list \<Rightarrow> int) \<Rightarrow> 'v checkedVariable list \<Rightarrow> int"
where
  "optimalWidth countFn cs = snd (foldl (optimalWidth_step countFn cs) (MaxInt64, 0) [2..17])"

definition getOptimalBasewidth :: "'v checkedVariable list \<Rightarrow> int" where
  "getOptimalBasewidth cs = optimalWidth nbR1CSConstraints cs"

text \<open>
  The cost model in the specification's words, over the bit widths of the requests and
  in unbounded integers: \<open>cost(w) = 2^w + sum of ceil(bitWidth / w) + numRequests + 1\<close>.
\<close>

definition ceil_div :: "int \<Rightarrow> int \<Rightarrow> int" where
  "ceil_div b w = - ((- b) div w)"

definition spec_cost :: "int \<Rightarrow> int list \<Rightarrow> int" where
  "spec_cost w bs = 2 ^ nat w + (\<Sum>b\<leftarrow>bs. ceil_div b w) + int (length bs) + 1"

section \<open>DecomposeHint\<close>

text \<open>
  \<^verbatim>\<open>big.Int\<close> values are unbounded integers. \<^verbatim>\<open>IsUint64\<close> holds of the values
  in \<open>[0, 2^64)\<close>; \<^verbatim>\<open>Int64()\<close> reads the low 64 bits as a signed integer.
\<close>

definition IsUint64 :: "int \<Rightarrow> bool" where
  "IsUint64 x = (0 \<le> x \<and> x < 2 ^ 64)"

text \<open>
  The loop over the outputs: \<^verbatim>\<open>outputs[i].Mod(tmp, base)\<close> is the Euclidean remainder
  (never negative, as \<open>base\<close> is positive) and \<^verbatim>\<open>tmp.Rsh(tmp, k)\<close> the arithmetic shift,
  which is the floor of the division by \<open>2^k\<close>.
\<close>

fun DecomposeHint_loop :: "nat \<Rightarrow> int \<Rightarrow> nat \<Rightarrow> int \<Rightarrow> int list" where
  "DecomposeHint_loop 0 base k tmp = []"
| "DecomposeHint_loop (Suc n) base k tmp = (tmp mod base) # DecomposeHint_loop n base k (tmp div 2 ^ k)"

text \<open>
  The hint takes the modulus (unused), the inputs, and the output slice, of which only
  the length \<open>nout\<close> is read. The division in \<^verbatim>\<open>decompSize\<close> panics when the limb
  size is zero. The shift count is \<^verbatim>\<open>uint(limbSize)\<close>, also for a limb size that
  \<^verbatim>\<open>Int64()\<close> made negative.
\<close>

definition DecomposeHint :: "int \<Rightarrow> int list \<Rightarrow> nat \<Rightarrow> failure + int list" where
  "DecomposeHint m inputs nout =
     (case inputs of
        [i0, i1, val] \<Rightarrow>
          if \<not> IsUint64 i0 \<or> \<not> IsUint64 i1 then Inl (Error ''first two inputs have to be uint64'')
          else
            let varSize = int64 i0; limbSize = int64 i1
            in if limbSize = 0 then Inl (Panic ''integer divide by zero'')
               else
                 let nbLimbs = decompSize varSize limbSize
                 in if int nout \<noteq> nbLimbs then Inl (Error ''need nbLimbs outputs instead to decompose'')
                    else
                      let k = nat (uint_of_int limbSize); base = 2 ^ k
                      in Inr (DecomposeHint_loop nout base k val)
      | _ \<Rightarrow> Inl (Error ''input must be 3 elements''))"

text \<open>The recomposition of the specification: \<open>sum of limb_i * (2^limbWidth)^i\<close>.\<close>

definition recompose :: "int \<Rightarrow> int list \<Rightarrow> int" where
  "recompose limbWidth limbs = (\<Sum>i<length limbs. limbs ! i * (2 ^ nat limbWidth) ^ i)"

section \<open>The builder interface\<close>

text \<open>
  The constraint-system builder (\<^verbatim>\<open>frontend.API\<close> and its \<^verbatim>\<open>Compiler()\<close>) is not part
  of these sources; the range checker only calls it. Its operations are parameters: a
  record of functions over the builder's state \<open>'b\<close> and its variables \<open>'v\<close>.
  \<^item> \<open>NewHint nbOutputs bits baseLength x\<close> registers \<^verbatim>\<open>DecomposeHint\<close> with the three
    inputs and returns the output variables or an error message;
  \<^item> \<open>Add\<close>, \<open>Mul\<close> return a variable; \<open>AssertIsEqual\<close> records a constraint;
  \<^item> \<open>ToCanonicalVariable\<close> returns \<open>Some l\<close> when the canonical form is a
    \<^verbatim>\<open>constraint.LinearExpression\<close> and \<open>None\<close> when it has another type; it
    belongs to the read interface of the builder and is a function of the builder's
    state that leaves the state as it is;
  \<^item> \<open>Constant\<close> is an integer constant passed as a variable.
\<close>

record ('v, 'b) API =
  NewHint :: "int \<Rightarrow> int \<Rightarrow> int \<Rightarrow> 'v \<Rightarrow> 'b \<Rightarrow> (string + 'v list) \<times> 'b"
  Add :: "'v \<Rightarrow> 'v \<Rightarrow> 'b \<Rightarrow> 'v \<times> 'b"
  Mul :: "'v \<Rightarrow> 'v \<Rightarrow> 'b \<Rightarrow> 'v \<times> 'b"
  AssertIsEqual :: "'v \<Rightarrow> 'v \<Rightarrow> 'b \<Rightarrow> 'b"
  ToCanonicalVariable :: "'v \<Rightarrow> 'b \<Rightarrow> LinearExpression option"
  Constant :: "int \<Rightarrow> 'v"

section \<open>Finalization: handleVarunaRangeCheck\<close>

text \<open>
  The inner loop \<^verbatim>\<open>composed = api.Add(composed, api.Mul(limbs[j], base^j))\<close>, with the
  index \<open>j\<close> of the next limb.
\<close>

fun handle_compose ::
  "('v, 'b) API \<Rightarrow> int \<Rightarrow> 'v list \<Rightarrow> nat \<Rightarrow> 'v \<Rightarrow> 'b \<Rightarrow> 'v \<times> 'b"
where
  "handle_compose api base [] j composed b = (composed, b)"
| "handle_compose api base (l # ls) j composed b =
     (let (p, b1) = Mul api l (Constant api (base ^ j)) b;
          (s, b2) = Add api composed p b1
      in handle_compose api base ls (Suc j) s b2)"

text \<open>
  The first loop, over the collected requests, with the limbs decomposed so far. A
  \<^verbatim>\<open>NewHint\<close> error panics, and so does the division in \<^verbatim>\<open>decompSize\<close> when
  \<open>baseLength\<close> is zero.
\<close>

fun handle_decompose ::
  "('v, 'b) API \<Rightarrow> int \<Rightarrow> 'v checkedVariable list \<Rightarrow> 'v list \<Rightarrow> 'b \<Rightarrow> (failure + 'v list) \<times> 'b"
where
  "handle_decompose api baseLength [] decomposed b = (Inr decomposed, b)"
| "handle_decompose api baseLength (c # cs) decomposed b =
     (if baseLength = 0 then (Inl (Panic ''integer divide by zero''), b)
      else
        let nbLimbs = decompSize (bits c) baseLength
        in case NewHint api nbLimbs (bits c) baseLength (cv c) b of
             (Inl err, b1) \<Rightarrow> (Inl (Panic (''decompose '' @ err)), b1)
           | (Inr limbs, b1) \<Rightarrow>
               (let (composed, b2) = handle_compose api (2 ^ nat baseLength) limbs 0 (Constant api 0) b1;
                    b3 = AssertIsEqual api composed (cv c) b2
                in handle_decompose api baseLength cs (decomposed @ limbs) b3))"

text \<open>
  The second loop, over the decomposed limbs, appending to \<^verbatim>\<open>c.lookups.A\<close>; it returns
  the error, if any, and the list as the loop left it.
\<close>

fun handle_members ::
  "('v, 'b) API \<Rightarrow> 'b \<Rightarrow> 'v list \<Rightarrow> LinearExpression list \<Rightarrow> failure option \<times> LinearExpression list"
where
  "handle_members api b [] acc = (None, acc)"
| "handle_members api b (x # xs) acc =
     (case ToCanonicalVariable api x b of
        Some l \<Rightarrow> handle_members api b xs (acc @ [l])
      | None \<Rightarrow> (Some (Error ''unhandled type of variable''), acc))"

text \<open>
  The outcome is \<open>Inr ()\<close> for \<^verbatim>\<open>return nil\<close>, \<open>Inl (Error _)\<close> for a returned error and
  \<open>Inl (Panic _)\<close> for a panic. The deferred \<^verbatim>\<open>c.closed = true\<close> runs on every path that
  starts open, a panic included. The logging, the \<^verbatim>\<open>uniqueBits\<close> count that is only
  logged, and the local slice \<^verbatim>\<open>collected\<close> that is filled and never read have no
  effect and are left out. The formatted parts of the messages (\<^verbatim>\<open>%T\<close>, \<^verbatim>\<open>%d\<close>)
  are left out of the message strings.
\<close>

definition handleVarunaRangeCheck ::
  "('v, 'b) API \<Rightarrow> 'v varunaChecker \<Rightarrow> 'b \<Rightarrow> (failure + unit) \<times> 'v varunaChecker \<times> 'b"
where
  "handleVarunaRangeCheck api c b =
     (if closed c then (Inr (), c, b)
      else if collected c = [] then (Inr (), c\<lparr>closed := True\<rparr>, b)
      else
        let baseLength = getOptimalBasewidth (collected c)
        in case handle_decompose api baseLength (collected c) [] b of
             (Inl f, b1) \<Rightarrow> (Inl f, c\<lparr>closed := True\<rparr>, b1)
           | (Inr decomposed, b1) \<Rightarrow>
               (let nbTable = shl1 baseLength
                in (case handle_members api b1 decomposed [] of
                      (None, ms) \<Rightarrow>
                        (Inr (), c\<lparr>lookups := \<lparr>NbTable = nbTable, members = ms\<rparr>, closed := True\<rparr>, b1)
                    | (Some f, ms) \<Rightarrow>
                        (Inl f, c\<lparr>lookups := \<lparr>NbTable = nbTable, members = ms\<rparr>, closed := True\<rparr>, b1))))"

section \<open>The collector in the builder's key-value store\<close>

text \<open>
  Modelled from the spec: the key-value store and the \<^verbatim>\<open>Defer\<close> registry of the builder
  (\<^verbatim>\<open>internal/kvstore\<close> and the compiler) are not part of these sources. The build
  state holds what the package reads and writes of them: whether the compiler implements
  the store, the value stored under the private key \<^verbatim>\<open>ctxCheckerKey{}\<close>, and the
  callbacks registered with \<^verbatim>\<open>Defer\<close>. Checkers are heap objects: a
  \<^verbatim>\<open>*varunaChecker\<close> is an address, the index of the object in \<open>heap\<close>. A stored value
  is a checker pointer or a value of another dynamic type.
\<close>

datatype stored = Checker nat | Foreign

record ('v, 'b) build =
  implements_kvstore :: bool
  kv :: "stored option"
  deferred :: "nat list"
  heap :: "'v varunaChecker list"
  backend :: 'b

definition NewVarunaRangechecker :: "('v, 'b) build \<Rightarrow> (failure + nat) \<times> ('v, 'b) build" where
  "NewVarunaRangechecker s =
     (if \<not> implements_kvstore s then (Inl (Panic ''builder should implement key-value store''), s)
      else case kv s of
        Some (Checker a) \<Rightarrow> (Inr a, s)
      | Some Foreign \<Rightarrow> (Inl (Panic ''stored rangechecker is not valid''), s)
      | None \<Rightarrow>
          let a = length (heap s)
          in (Inr a, s\<lparr>heap := heap s @ [zero_varunaChecker],
                       kv := Some (Checker a),
                       deferred := deferred s @ [a]\<rparr>))"

definition GetLookupByBuilder :: "('v, 'b) build \<Rightarrow> failure + Lookup" where
  "GetLookupByBuilder s =
     (if \<not> implements_kvstore s then Inl (Panic ''builder should implement key-value store'')
      else case kv s of
        Some (Checker a) \<Rightarrow>
          if a < length (heap s) then
            (if \<not> closed (heap s ! a) then Inl (Panic ''checker is not closed'')
             else Inr (lookups (heap s ! a)))
          else Inl (Panic ''invalid memory address or nil pointer dereference'')
      | Some Foreign \<Rightarrow> Inl (Panic ''stored rangechecker is not valid'')
      | None \<Rightarrow> Inl (Panic ''rangechecker not found''))"

text \<open>The methods called through a pointer \<open>a\<close>: they update the object in the heap.\<close>

definition Check_at :: "nat \<Rightarrow> 'v \<Rightarrow> int \<Rightarrow> ('v, 'b) build \<Rightarrow> (failure + unit) \<times> ('v, 'b) build" where
  "Check_at a x n s =
     (if a < length (heap s) then
        (case Check (heap s ! a) x n of
           Inl f \<Rightarrow> (Inl f, s)
         | Inr c \<Rightarrow> (Inr (), s\<lparr>heap := (heap s)[a := c]\<rparr>))
      else (Inl (Panic ''invalid memory address or nil pointer dereference''), s))"

definition Finalize_at ::
  "('v, 'b) API \<Rightarrow> nat \<Rightarrow> ('v, 'b) build \<Rightarrow> (failure + unit) \<times> ('v, 'b) build"
where
  "Finalize_at api a s =
     (if a < length (heap s) then
        (case handleVarunaRangeCheck api (heap s ! a) (backend s) of
           (r, c, b) \<Rightarrow> (r, s\<lparr>heap := (heap s)[a := c], backend := b\<rparr>))
      else (Inl (Panic ''invalid memory address or nil pointer dereference''), s))"

text \<open>
  Circuit code range checks a value with
  \<^verbatim>\<open>NewVarunaRangechecker(api).Check(x, n)\<close>; a batch of requests is a sequence of such
  calls, stopped by the first panic. The result lists the pointers the calls obtained.
\<close>

fun check_calls ::
  "'v checkedVariable list \<Rightarrow> ('v, 'b) build \<Rightarrow> (failure + nat list) \<times> ('v, 'b) build"
where
  "check_calls [] s = (Inr [], s)"
| "check_calls (r # rs) s =
     (case NewVarunaRangechecker s of
        (Inl f, s1) \<Rightarrow> (Inl f, s1)
      | (Inr a, s1) \<Rightarrow>
          (case Check_at a (cv r) (bits r) s1 of
             (Inl f, s2) \<Rightarrow> (Inl f, s2)
           | (Inr u, s2) \<Rightarrow>
               (case check_calls rs s2 of
                  (Inl f, s3) \<Rightarrow> (Inl f, s3)
                | (Inr as, s3) \<Rightarrow> (Inr (a # as), s3))))"

text \<open>A build before any range check: nothing stored, nothing deferred, no checker.\<close>

definition new_build :: "'b \<Rightarrow> ('v, 'b) build" where
  "new_build b = \<lparr>implements_kvstore = True, kv = None, deferred = [], heap = [], backend = b\<rparr>"

section \<open>Export: data\<close>

text \<open>
  \<^verbatim>\<open>Element\<close> and \<^verbatim>\<open>fr.Element\<close> are \<^verbatim>\<open>[4]uint64\<close>, little-endian;
  \<^verbatim>\<open>constraint.Element\<close> is \<^verbatim>\<open>[6]uint64\<close>. \<open>copy4\<close> is
  \<^verbatim>\<open>var ee fr.Element; copy(ee[:], e[:4])\<close>.
\<close>

type_synonym u64 = "64 word"
type_synonym Element = "u64 \<times> u64 \<times> u64 \<times> u64"
type_synonym constraint_Element = "u64 \<times> u64 \<times> u64 \<times> u64 \<times> u64 \<times> u64"

definition copy4 :: "constraint_Element \<Rightarrow> Element" where
  "copy4 e = (case e of (e0, e1, e2, e3, e4, e5) \<Rightarrow> (e0, e1, e2, e3))"

text \<open>
  The field library (\<^verbatim>\<open>gnark-crypto\<close>'s \<^verbatim>\<open>fr\<close>) is not part of these sources; what
  the exporters call of it is a parameter: \<open>Bits\<close> (the limbs of the value in regular,
  not Montgomery, form), \<open>BigInt\<close> (the value as an integer) and \<open>Modulus\<close>.
\<close>

record fr_lib =
  Bits :: "Element \<Rightarrow> Element"
  BigInt :: "Element \<Rightarrow> int"
  Modulus :: int

text \<open>
  The read interface of the constraint system: \<^verbatim>\<open>GetR1Cs()\<close> with the rows'
  \<^verbatim>\<open>L\<close>, \<^verbatim>\<open>R\<close>, \<^verbatim>\<open>O\<close> (here \<open>r1c_L\<close>, \<open>r1c_R\<close>, \<open>r1c_O\<close>),
  \<^verbatim>\<open>GetCoefficient\<close>, \<^verbatim>\<open>GetNbConstraints()\<close> and \<^verbatim>\<open>GetNbPublicVariables()\<close>.
\<close>

record R1C =
  r1c_L :: LinearExpression
  r1c_R :: LinearExpression
  r1c_O :: LinearExpression

record R1CS =
  GetNbConstraints :: int
  GetR1Cs :: "R1C list"
  GetCoefficient :: "int \<Rightarrow> constraint_Element"
  GetNbPublicVariables :: int

text \<open>\<^verbatim>\<open>ConstraintRaw{A, B, C}\<close>, three Go maps from \<^verbatim>\<open>int\<close> to \<^verbatim>\<open>Element\<close>.\<close>

record ConstraintRaw =
  raw_A :: "int \<rightharpoonup> Element"
  raw_B :: "int \<rightharpoonup> Element"
  raw_C :: "int \<rightharpoonup> Element"

text \<open>\<^verbatim>\<open>AssignmentRaw\<close> of \<^verbatim>\<open>export_utils.go\<close>; the sizes are \<^verbatim>\<open>uint\<close>.\<close>

record AssignmentRaw =
  Variables :: "Element list"
  PrimaryInputSize :: int
  AuxiliaryInputSize :: int

text \<open>\<^verbatim>\<open>AssignmentRaw\<close> of the variant of the file that takes the constraint system.\<close>

record AssignmentRaw_v2 =
  Variables_v2 :: "Element list"
  NumPublicInputs :: int

text \<open>\<^verbatim>\<open>LookupRaw{Table, Constraints}\<close>; a table row is \<^verbatim>\<open>[3]uint32\<close>.\<close>

record LookupRaw =
  Table :: "(32 word \<times> 32 word \<times> 32 word) list"
  Constraints :: "ConstraintRaw list"

section \<open>Export: writing the file\<close>

text \<open>
  The operating system and the CBOR encoder are parameters. \<open>Create\<close> returns an error
  or the handle of the created file; \<open>Write\<close> and \<open>Close\<close> on an open file return
  their error, if any. The encoder is a function from the value to an error or bytes.
\<close>

record OS =
  Create :: "string \<Rightarrow> string + nat"
  Write :: "nat \<Rightarrow> 8 word list \<Rightarrow> string option"
  Close :: "nat \<Rightarrow> string option"

text \<open>
  \<^verbatim>\<open>f, _ := os.Create(filePath)\<close>: the error is dropped, and \<^verbatim>\<open>f\<close> is \<^verbatim>\<open>nil\<close>
  when the creation failed.
\<close>

definition os_Create_ignoring_error :: "OS \<Rightarrow> string \<Rightarrow> nat option" where
  "os_Create_ignoring_error os filePath =
     (case Create os filePath of Inl err \<Rightarrow> None | Inr h \<Rightarrow> Some h)"

text \<open>
  The methods of \<^verbatim>\<open>*os.File\<close>: on a \<^verbatim>\<open>nil\<close> receiver both return
  \<^verbatim>\<open>os.ErrInvalid\<close>, whose message is "invalid argument".
\<close>

definition File_Write :: "OS \<Rightarrow> nat option \<Rightarrow> 8 word list \<Rightarrow> string option" where
  "File_Write os f got = (case f of None \<Rightarrow> Some ''invalid argument'' | Some h \<Rightarrow> Write os h got)"

definition File_Close :: "OS \<Rightarrow> nat option \<Rightarrow> string option" where
  "File_Close os f = (case f of None \<Rightarrow> Some ''invalid argument'' | Some h \<Rightarrow> Close os h)"

text \<open>
  The block that ends each of the three exporters: create, encode, write, close. The
  result of \<^verbatim>\<open>Close()\<close> is not read.
\<close>

definition write_file ::
  "OS \<Rightarrow> ('a \<Rightarrow> string + 8 word list) \<Rightarrow> string \<Rightarrow> 'a \<Rightarrow> failure + unit"
where
  "write_file os marshal filePath raw =
     (let f = os_Create_ignoring_error os filePath
      in case marshal raw of
           Inl err \<Rightarrow> Inl (Error err)
         | Inr got \<Rightarrow>
             (case File_Write os f got of
                Some err \<Rightarrow> Inl (Error err)
              | None \<Rightarrow> (let closeResult = File_Close os f in Inr ())))"

section \<open>Export: the three exporters of export\_utils.go\<close>

text \<open>
  \<^verbatim>\<open>make(s, 0, cap)\<close> of a slice panics when the capacity is negative or the slice
  would take more than the runtime's allocation limit, \<open>2^48\<close> bytes on the 64-bit
  platforms.
\<close>

definition makeslice_ok :: "int \<Rightarrow> int \<Rightarrow> bool" where
  "makeslice_ok elemSize cap = (0 \<le> cap \<and> elemSize * cap \<le> 2 ^ 48)"

text \<open>
  One side of a constraint row: for each term, in order, the entry at the variable id is
  set to the coefficient's regular form (a later term with the same variable id
  overwrites an earlier one), and the exporter panics unless the coefficient's value is
  below the modulus.
\<close>

fun r1cs_side ::
  "fr_lib \<Rightarrow> R1CS \<Rightarrow> LinearExpression \<Rightarrow> (int \<rightharpoonup> Element) \<Rightarrow> failure + (int \<rightharpoonup> Element)"
where
  "r1cs_side fr r1cs [] m = Inr m"
| "r1cs_side fr r1cs (t # ts) m =
     (let e = GetCoefficient r1cs (uint (CID t));
          ee = copy4 e;
          m1 = m(uint (VID t) \<mapsto> Bits fr ee)
      in if \<not> BigInt fr ee < Modulus fr then Inl (Panic ''wft!!!'')
         else r1cs_side fr r1cs ts m1)"

fun SerializeR1CS_rows :: "fr_lib \<Rightarrow> R1CS \<Rightarrow> R1C list \<Rightarrow> ConstraintRaw list \<Rightarrow> failure + ConstraintRaw list" where
  "SerializeR1CS_rows fr r1cs [] r1csRaw = Inr r1csRaw"
| "SerializeR1CS_rows fr r1cs (r1c # rest) r1csRaw =
     (case r1cs_side fr r1cs (r1c_L r1c) Map.empty of
        Inl f \<Rightarrow> Inl f
      | Inr a \<Rightarrow>
          (case r1cs_side fr r1cs (r1c_R r1c) Map.empty of
             Inl f \<Rightarrow> Inl f
           | Inr b \<Rightarrow>
               (case r1cs_side fr r1cs (r1c_O r1c) Map.empty of
                  Inl f \<Rightarrow> Inl f
                | Inr c \<Rightarrow>
                    SerializeR1CS_rows fr r1cs rest (r1csRaw @ [\<lparr>raw_A = a, raw_B = b, raw_C = c\<rparr>]))))"

text \<open>
  \<^verbatim>\<open>make(R1CSRaw, 0, r1cs.GetNbConstraints())\<close> comes first; a row of three maps takes
  24 bytes.
\<close>

definition SerializeR1CS ::
  "fr_lib \<Rightarrow> OS \<Rightarrow> (ConstraintRaw list \<Rightarrow> string + 8 word list) \<Rightarrow> R1CS \<Rightarrow> string \<Rightarrow> failure + unit"
where
  "SerializeR1CS fr os marshal r1cs filePath =
     (if \<not> makeslice_ok 24 (GetNbConstraints r1cs) then Inl (Panic ''makeslice: cap out of range'')
      else case SerializeR1CS_rows fr r1cs (GetR1Cs r1cs) [] of
        Inl f \<Rightarrow> Inl f
      | Inr r1csRaw \<Rightarrow> write_file os marshal filePath r1csRaw)"

text \<open>
  The witness: \<^verbatim>\<open>solution.W[1:]\<close> panics on an empty \<^verbatim>\<open>W\<close>. The value handed to
  the encoder is \<open>SerializeAssignment_raw\<close>.
\<close>

definition SerializeAssignment_raw :: "fr_lib \<Rightarrow> Element list \<Rightarrow> failure + AssignmentRaw" where
  "SerializeAssignment_raw fr W =
     (case W of
        [] \<Rightarrow> Inl (Panic ''slice bounds out of range [1:0]'')
      | w0 # ws \<Rightarrow>
          Inr \<lparr>Variables = map (Bits fr) ws, PrimaryInputSize = 0, AuxiliaryInputSize = 0\<rparr>)"

definition SerializeAssignment ::
  "fr_lib \<Rightarrow> OS \<Rightarrow> (AssignmentRaw \<Rightarrow> string + 8 word list) \<Rightarrow> Element list \<Rightarrow> string \<Rightarrow> failure + unit"
where
  "SerializeAssignment fr os marshal W filePath =
     (case SerializeAssignment_raw fr W of
        Inl f \<Rightarrow> Inl f
      | Inr assignmentRaw \<Rightarrow> write_file os marshal filePath assignmentRaw)"

text \<open>
  The lookup: the table loop \<^verbatim>\<open>for i := 0; i < lookup.NbTable; i++\<close> with
  \<^verbatim>\<open>uint32(i)\<close>, then one row per member with only the \<^verbatim>\<open>A\<close> map filled (no
  modulus check here).
\<close>

fun lookup_side :: "fr_lib \<Rightarrow> R1CS \<Rightarrow> LinearExpression \<Rightarrow> (int \<rightharpoonup> Element) \<Rightarrow> (int \<rightharpoonup> Element)" where
  "lookup_side fr r1cs [] m = m"
| "lookup_side fr r1cs (t # ts) m =
     (let e = GetCoefficient r1cs (uint (CID t));
          ee = copy4 e
      in lookup_side fr r1cs ts (m(uint (VID t) \<mapsto> Bits fr ee)))"

text \<open>
  \<^verbatim>\<open>make([][3]uint32, 0, lookup.NbTable)\<close> comes first and panics unless the capacity
  is in range; a table row takes 12 bytes. (The second \<^verbatim>\<open>make\<close> takes the length of a
  slice that exists, which is in range.)
\<close>

definition SerializeLookup_raw :: "fr_lib \<Rightarrow> Lookup \<Rightarrow> R1CS \<Rightarrow> failure + LookupRaw" where
  "SerializeLookup_raw fr lookup r1cs =
     (if \<not> makeslice_ok 12 (NbTable lookup) then Inl (Panic ''makeslice: cap out of range'')
      else
        Inr \<lparr>Table = map (\<lambda>i. (word_of_int i, 0, 0)) [0..NbTable lookup - 1],
             Constraints =
               map (\<lambda>lc. \<lparr>raw_A = lookup_side fr r1cs lc Map.empty, raw_B = Map.empty, raw_C = Map.empty\<rparr>)
                 (members lookup)\<rparr>)"

definition SerializeLookup ::
  "fr_lib \<Rightarrow> OS \<Rightarrow> (LookupRaw \<Rightarrow> string + 8 word list) \<Rightarrow> Lookup \<Rightarrow> R1CS \<Rightarrow> string \<Rightarrow> failure + unit"
where
  "SerializeLookup fr os marshal lookup r1cs filePath =
     (case SerializeLookup_raw fr lookup r1cs of
        Inl f \<Rightarrow> Inl f
      | Inr lookupRaw \<Rightarrow> write_file os marshal filePath lookupRaw)"

section \<open>Export: the witness exporter of the variant with the public-input count\<close>

text \<open>
  The second \<^verbatim>\<open>SerializeAssignment\<close> of the sources takes the constraint system too:
  it exports every entry of \<^verbatim>\<open>W\<close>, the first included, and
  \<^verbatim>\<open>uint(r1cs.GetNbPublicVariables())\<close>.
\<close>

definition SerializeAssignment_v2_raw :: "fr_lib \<Rightarrow> R1CS \<Rightarrow> Element list \<Rightarrow> AssignmentRaw_v2" where
  "SerializeAssignment_v2_raw fr r1cs W =
     \<lparr>Variables_v2 = map (Bits fr) W,
      NumPublicInputs = uint_of_int (GetNbPublicVariables r1cs)\<rparr>"

definition SerializeAssignment_v2 ::
  "fr_lib \<Rightarrow> OS \<Rightarrow> (AssignmentRaw_v2 \<Rightarrow> string + 8 word list) \<Rightarrow> R1CS \<Rightarrow> Element list \<Rightarrow> string \<Rightarrow> failure + unit"
where
  "SerializeAssignment_v2 fr os marshal r1cs W filePath =
     write_file os marshal filePath (SerializeAssignment_v2_raw fr r1cs W)"

section \<open>Export: the JSON witness exporter\<close>

text \<open>
  The third \<^verbatim>\<open>SerializeAssignment\<close> of the sources writes JSON: every entry of
  \<^verbatim>\<open>W\<close>, the first included, wrapped as \<^verbatim>\<open>FrElement{v}\<close> with its limbs as they are
  (the encoder's \<^verbatim>\<open>MarshalJSON\<close> prints them as one decimal number), and both sizes 0.
\<close>

definition SerializeAssignment_json_raw :: "Element list \<Rightarrow> AssignmentRaw" where
  "SerializeAssignment_json_raw W =
     \<lparr>Variables = W, PrimaryInputSize = 0, AuxiliaryInputSize = 0\<rparr>"

definition SerializeAssignment_json ::
  "OS \<Rightarrow> (AssignmentRaw \<Rightarrow> string + 8 word list) \<Rightarrow> Element list \<Rightarrow> string \<Rightarrow> failure + unit"
where
  "SerializeAssignment_json os marshal W filePath =
     write_file os marshal filePath (SerializeAssignment_json_raw W)"

section \<open>Notions of the specification and concrete inputs\<close>

text \<open>
  The builder's contract for hints: a successful \<^verbatim>\<open>NewHint\<close> returns as many
  variables as were asked for.
\<close>

definition hint_arity :: "('v, 'b) API \<Rightarrow> bool" where
  "hint_arity api =
     (\<forall>n bs bl x b outs b1. NewHint api n bs bl x b = (Inr outs, b1) \<longrightarrow> length outs = nat n)"

text \<open>
  The states a checker goes through: created by \<^verbatim>\<open>&varunaChecker{}\<close>, then changed
  only by \<^verbatim>\<open>Check\<close> and by the finalization.
\<close>

inductive reachable :: "('v, 'b) API \<Rightarrow> 'v varunaChecker \<Rightarrow> bool" for api :: "('v, 'b) API" where
  fresh: "reachable api zero_varunaChecker"
| checked: "reachable api c \<Longrightarrow> Check c x n = Inr c1 \<Longrightarrow> reachable api c1"
| finalized: "reachable api c \<Longrightarrow> handleVarunaRangeCheck api c b = (r, c1, b1) \<Longrightarrow> reachable api c1"

text \<open>
  A small symbolic builder, used as a concrete input. Variables are expressions over
  numbered wires; the state counts the wires and records the asserted equalities. A hint
  with \<open>n > 0\<close> outputs returns \<open>n\<close> fresh wires. The canonical form of wire
  \<open>i\<close> is a one-term linear expression when \<open>lin i\<close> holds (for every wire in an
  R1CS builder) and of another type otherwise (as in a builder whose canonical variables
  are not linear expressions).
\<close>

datatype sym = Wire nat | Num int | AddOf sym sym | MulOf sym sym

record sym_state =
  nbWires :: nat
  asserted :: "(sym \<times> sym) list"

definition sym_api :: "(nat \<Rightarrow> bool) \<Rightarrow> (sym, sym_state) API" where
  "sym_api lin =
     \<lparr>NewHint = (\<lambda>n bs bl x b.
         if n \<le> 0 then (Inl ''hint function must return at least one output'', b)
         else (Inr (map Wire [nbWires b..<nbWires b + nat n]), b\<lparr>nbWires := nbWires b + nat n\<rparr>)),
      Add = (\<lambda>x y b. (AddOf x y, b)),
      Mul = (\<lambda>x y b. (MulOf x y, b)),
      AssertIsEqual = (\<lambda>x y b. b\<lparr>asserted := asserted b @ [(x, y)]\<rparr>),
      ToCanonicalVariable = (\<lambda>x b.
         case x of
           Wire i \<Rightarrow> if lin i then Some [\<lparr>CID = 1, VID = of_nat i\<rparr>] else None
         | _ \<Rightarrow> None),
      Constant = Num\<rparr>"

definition sym_start :: sym_state where
  "sym_start = \<lparr>nbWires = 4, asserted = []\<rparr>"

text \<open>The batch of the specification's scenario: bit widths 8, 8 and 16.\<close>

definition batch_8_8_16 :: "sym checkedVariable list" where
  "batch_8_8_16 = [\<lparr>cv = Wire 1, bits = 8\<rparr>, \<lparr>cv = Wire 2, bits = 8\<rparr>, \<lparr>cv = Wire 3, bits = 16\<rparr>]"

text \<open>
  The builders and states used as concrete inputs: one whose wires all have a linear
  canonical form, one where only the wires below 6 have; a single request of 8 bits and the
  build after the circuit made it; the collector holding the batch of the scenario.
\<close>

definition sym_r1cs :: "(sym, sym_state) API" where
  "sym_r1cs = sym_api (\<lambda>i. True)"

definition sym_partial :: "(sym, sym_state) API" where
  "sym_partial = sym_api (\<lambda>i. i < 6)"

definition one_request :: "sym checkedVariable list" where
  "one_request = [\<lparr>cv = Wire 1, bits = 8\<rparr>]"

definition one_request_build :: "(sym, sym_state) build" where
  "one_request_build = snd (check_calls one_request (new_build sym_start))"

definition scenario_checker :: "sym varunaChecker" where
  "scenario_checker = zero_varunaChecker\<lparr>collected := batch_8_8_16\<rparr>"

definition closed_checker :: "sym varunaChecker" where
  "closed_checker = zero_varunaChecker\<lparr>closed := True\<rparr>"

text \<open>
  Whether an exporter's result is a returned error (not a panic, not success).
\<close>

definition returns_error :: "failure + unit \<Rightarrow> bool" where
  "returns_error r = (case r of Inl (Error msg) \<Rightarrow> True | _ \<Rightarrow> False)"

text \<open>
  An I/O failure of the file block for the value \<open>raw\<close>: the creation of the file fails,
  or the file is created and the write of the encoded value fails.
\<close>

definition create_or_write_fails ::
  "OS \<Rightarrow> ('a \<Rightarrow> string + 8 word list) \<Rightarrow> string \<Rightarrow> 'a \<Rightarrow> bool"
where
  "create_or_write_fails os marshal filePath raw =
     (case Create os filePath of
        Inl err \<Rightarrow> True
      | Inr h \<Rightarrow> (case marshal raw of Inl err \<Rightarrow> False | Inr got \<Rightarrow> Write os h got \<noteq> None))"

text \<open>
  Concrete inputs for the exporters: a field library whose \<open>Bits\<close> is the identity, a
  constraint system with one row, a witness of two entries, a Lookup with one member,
  an encoder that always succeeds, and operating systems in which only the creation,
  only the write, or only the close fails.
\<close>

definition toy_fr :: fr_lib where
  "toy_fr =
     \<lparr>Bits = (\<lambda>e. e),
      BigInt = (\<lambda>e. case e of (e0, e1, e2, e3) \<Rightarrow>
                  uint e0 + 2 ^ 64 * uint e1 + 2 ^ 128 * uint e2 + 2 ^ 192 * uint e3),
      Modulus = 8444461749428370424248824938781546531375899335154063827935233455917409239041\<rparr>"

definition toy_r1cs :: R1CS where
  "toy_r1cs =
     \<lparr>GetNbConstraints = 1,
      GetR1Cs = [\<lparr>r1c_L = [\<lparr>CID = 1, VID = 1\<rparr>], r1c_R = [\<lparr>CID = 1, VID = 1\<rparr>], r1c_O = [\<lparr>CID = 2, VID = 2\<rparr>]\<rparr>],
      GetCoefficient = (\<lambda>i. (word_of_int i, 0, 0, 0, 0, 0)),
      GetNbPublicVariables = 1\<rparr>"

definition toy_W :: "Element list" where
  "toy_W = [(1, 0, 0, 0), (7, 0, 0, 0)]"

definition toy_lookup :: Lookup where
  "toy_lookup = \<lparr>NbTable = 4, members = [[\<lparr>CID = 1, VID = 4\<rparr>]]\<rparr>"

definition toy_marshal :: "'a \<Rightarrow> string + 8 word list" where
  "toy_marshal raw = Inr [160]"

text \<open>
  Encoders that write the counts the exported values are asked about (the table rows'
  indices and the number of constraint rows; the number of witness elements and the
  public-input count), an operating system in which the write succeeds for exactly one
  byte string, and the value the lookup exporter builds for \<open>toy_lookup\<close>.
\<close>

definition toy_marshal_lookup :: "LookupRaw \<Rightarrow> string + 8 word list" where
  "toy_marshal_lookup raw =
     Inr (map (\<lambda>row. ucast (fst row)) (Table raw) @ [of_nat (length (Constraints raw))])"

definition toy_marshal_assignment :: "AssignmentRaw \<Rightarrow> string + 8 word list" where
  "toy_marshal_assignment raw =
     Inr [of_nat (length (Variables raw)), word_of_int (PrimaryInputSize raw)]"

definition toy_marshal_assignment_v2 :: "AssignmentRaw_v2 \<Rightarrow> string + 8 word list" where
  "toy_marshal_assignment_v2 raw =
     Inr [of_nat (length (Variables_v2 raw)), word_of_int (NumPublicInputs raw)]"

definition os_accepts :: "8 word list \<Rightarrow> OS" where
  "os_accepts bs =
     \<lparr>Create = (\<lambda>p. Inr 3),
      Write = (\<lambda>h got. if got = bs then None else Some ''short write''),
      Close = (\<lambda>h. None)\<rparr>"

definition toy_lookupRaw :: LookupRaw where
  "toy_lookupRaw =
     \<lparr>Table = [(0, 0, 0), (1, 0, 0), (2, 0, 0), (3, 0, 0)],
      Constraints = [\<lparr>raw_A = [4 \<mapsto> (1, 0, 0, 0)], raw_B = Map.empty, raw_C = Map.empty\<rparr>]\<rparr>"

definition os_create_fails :: OS where
  "os_create_fails =
     \<lparr>Create = (\<lambda>p. Inl ''permission denied''), Write = (\<lambda>h got. None), Close = (\<lambda>h. None)\<rparr>"

definition os_write_fails :: OS where
  "os_write_fails =
     \<lparr>Create = (\<lambda>p. Inr 3), Write = (\<lambda>h got. Some ''no space left on device''), Close = (\<lambda>h. None)\<rparr>"

definition os_close_fails :: OS where
  "os_close_fails =
     \<lparr>Create = (\<lambda>p. Inr 3), Write = (\<lambda>h got. None), Close = (\<lambda>h. Some ''input/output error'')\<rparr>"

section \<open>Facts about the integer model\<close>

lemma int64_id: "- (2 ^ 63) \<le> x \<Longrightarrow> x < 2 ^ 63 \<Longrightarrow> int64 x = x"
  by (simp add: int64_def)

lemma int64_add_left: "int64 (int64 a + b) = int64 (a + b)"
  by (simp add: int64_def algebra_simps mod_simps)

lemma ceil_div_ceiling: "0 < w \<Longrightarrow> ceil_div b w = \<lceil>real_of_int b / real_of_int w\<rceil>"
  by (simp add: ceil_div_def ceiling_divide_eq_div)

lemma int64_add_right: "int64 (a + int64 b) = int64 (a + b)"
  by (simp add: int64_def algebra_simps mod_simps)

lemma int64_idem: "int64 (int64 a) = int64 a"
  using int64_add_left [of a 0] by simp

lemma int64_0: "int64 0 = 0"
  by (simp add: int64_def)

lemma foldl_int64_sum:
  "foldl (\<lambda>acc c. int64 (acc + f c)) (int64 a) cs = int64 (a + sum_list (map f cs))"
proof (induction cs arbitrary: a)
  case Nil
  then show ?case by simp
next
  case (Cons c cs)
  have "foldl (\<lambda>acc c. int64 (acc + f c)) (int64 a) (c # cs)
      = foldl (\<lambda>acc c. int64 (acc + f c)) (int64 (a + f c)) cs"
    by (simp add: int64_add_left)
  also have "\<dots> = int64 (a + f c + sum_list (map f cs))"
    by (rule Cons.IH)
  finally show ?case by (simp add: add.assoc)
qed

lemma int64_add_mid: "int64 (a + (int64 b + c)) = int64 (a + (b + c))"
proof -
  have "int64 (a + (int64 b + c)) = int64 (int64 b + (a + c))" by (simp add: add.left_commute)
  also have "\<dots> = int64 (b + (a + c))" by (rule int64_add_left)
  finally show ?thesis by (simp add: add.left_commute)
qed

lemma nbR1CSConstraints_sum:
  "nbR1CSConstraints j cs =
     int64 (2 ^ nat j + (\<Sum>c\<leftarrow>cs. decompSize (bits c) j) + int (length cs) + 1)"
proof -
  have "foldl (\<lambda>acc c. int64 (acc + decompSize (bits c) j)) 0 cs
      = int64 (\<Sum>c\<leftarrow>cs. decompSize (bits c) j)"
    using foldl_int64_sum [of "\<lambda>c. decompSize (bits c) j" 0 cs] by (simp add: int64_0)
  then show ?thesis
    by (simp add: nbR1CSConstraints_def shl1_def Let_def int64_add_left int64_add_mid add.assoc)
qed

lemma quo_nonneg: "0 \<le> a \<Longrightarrow> 0 < b \<Longrightarrow> quo a b = a div b"
  by (cases "a = 0") (simp_all add: quo_def)

lemma ceil_div_alt:
  assumes w: "0 < w"
  shows "ceil_div b w = (b + w - 1) div w"
proof -
  define q where "q = b div w"
  define r where "r = b mod w"
  have b: "b = r + q * w" by (simp add: q_def r_def)
  have r: "0 \<le> r" "r < w" using w by (simp_all add: r_def)
  have "b + w - 1 = (r + w - 1) + q * w" using b by simp
  then have "(b + w - 1) div w = ((r + w - 1) + q * w) div w" by (rule arg_cong)
  also have "\<dots> = (r + w - 1) div w + q" using w by simp
  finally have e: "(b + w - 1) div w = (r + w - 1) div w + q" .
  show ?thesis
  proof (cases "r = 0")
    case True
    then have "(- b) div w = - q"
      using w by (simp add: zdiv_zminus1_eq_if q_def r_def)
    moreover have "(r + w - 1) div w = 0" using True w by (simp add: div_pos_pos_trivial)
    ultimately show ?thesis using e by (simp add: ceil_div_def)
  next
    case False
    then have "(- b) div w = - q - 1"
      using w by (simp add: zdiv_zminus1_eq_if q_def r_def)
    moreover have "(r + w - 1) div w = 1"
    proof -
      have "r + w - 1 = (r - 1) + 1 * w" by simp
      then have "(r + w - 1) div w = ((r - 1) + 1 * w) div w" by (rule arg_cong)
      also have "\<dots> = (r - 1) div w + 1" using w by (simp only: div_mult_self1 [OF less_imp_neq [THEN not_sym]])
      finally show ?thesis using r False by (simp add: div_pos_pos_trivial)
    qed
    ultimately show ?thesis using e by (simp add: ceil_div_def)
  qed
qed

lemma div_le_self_int: "0 \<le> a \<Longrightarrow> 0 < w \<Longrightarrow> a div w \<le> (a::int)"
  using zdiv_mono2 [of a 1 w] by simp

lemma decompSize_ceil:
  assumes "0 \<le> b" "0 < w" "b + w - 1 < 2 ^ 63"
  shows "decompSize b w = ceil_div b w"
proof -
  have 1: "int64 (b + w - 1) = b + w - 1"
    using assms by (intro int64_id) simp_all
  have 2: "quo (b + w - 1) w = (b + w - 1) div w"
    using assms by (intro quo_nonneg) simp_all
  have 3: "0 \<le> (b + w - 1) div w"
    using assms by (simp add: pos_imp_zdiv_nonneg_iff)
  have 4: "(b + w - 1) div w \<le> b + w - 1"
    using assms by (intro div_le_self_int) simp_all
  have "int64 ((b + w - 1) div w) = (b + w - 1) div w"
    using 3 4 assms by (intro int64_id) simp_all
  then show ?thesis
    using assms by (simp add: decompSize_def 1 2 ceil_div_alt)
qed

lemma ceil_div_bounds:
  assumes "0 \<le> b" "0 < w"
  shows "0 \<le> ceil_div b w" "ceil_div b w \<le> b"
proof -
  have e: "ceil_div b w = (b + w - 1) div w" using assms by (simp add: ceil_div_alt)
  show "0 \<le> ceil_div b w" unfolding e using assms by (simp add: pos_imp_zdiv_nonneg_iff)
  show "ceil_div b w \<le> b"
  proof (cases "b = 0")
    case True
    then show ?thesis unfolding e using assms by (simp add: div_pos_pos_trivial)
  next
    case False
    then have "1 \<le> b" using assms by simp
    have "(b - 1) * (w - 1) \<ge> 0" using \<open>1 \<le> b\<close> assms by simp
    then have le: "b + w - 1 \<le> b * w" by (simp add: algebra_simps)
    have "(b + w - 1) div w \<le> (b * w) div w"
      using le assms by (intro zdiv_mono1) simp_all
    then show ?thesis unfolding e using assms by simp
  qed
qed

section \<open>Facts about the width optimizer\<close>

lemma optimalWidth_scan:
  assumes "sorted js" "distinct js"
  shows "case foldl (optimalWidth_step f cs) (m0, v0) js of (m, w) \<Rightarrow>
           m \<le> m0 \<and> list_all (\<lambda>j. m \<le> f j cs) js \<and>
           (if m = m0 then w = v0
            else w \<in> set js \<and> f w cs = m \<and> list_all (\<lambda>j. w \<le> j \<or> m < f j cs) js)"
  using assms
proof (induction js rule: rev_induct)
  case Nil
  then show ?case by simp
next
  case (snoc x xs)
  obtain m w where mw: "foldl (optimalWidth_step f cs) (m0, v0) xs = (m, w)"
    by (cases "foldl (optimalWidth_step f cs) (m0, v0) xs")
  have srt: "sorted xs" "distinct xs" and lt: "\<forall>y\<in>set xs. y < x"
    using snoc.prems by (auto simp: sorted_append less_le)
  from snoc.IH [OF srt] mw
  have ih: "m \<le> m0" "list_all (\<lambda>j. m \<le> f j cs) xs"
    "if m = m0 then w = v0 else w \<in> set xs \<and> f w cs = m \<and> list_all (\<lambda>j. w \<le> j \<or> m < f j cs) xs"
    by simp_all
  show ?case
  proof (cases "f x cs < m")
    case True
    then have "foldl (optimalWidth_step f cs) (m0, v0) (xs @ [x]) = (f x cs, x)"
      by (simp add: mw optimalWidth_step_def)
    moreover have "list_all (\<lambda>j. f x cs \<le> f j cs) xs"
      using ih(2) True by (auto simp: list_all_iff)
    moreover have "list_all (\<lambda>j. x \<le> j \<or> f x cs < f j cs) xs"
      using ih(2) True by (auto simp: list_all_iff)
    ultimately show ?thesis using True ih(1) by auto
  next
    case False
    then have e: "foldl (optimalWidth_step f cs) (m0, v0) (xs @ [x]) = (m, w)"
      by (simp add: mw optimalWidth_step_def)
    have "m \<noteq> m0 \<Longrightarrow> w \<le> x" using ih(3) lt by (auto split: if_splits)
    then show ?thesis using False ih e by (auto split: if_splits)
  qed
qed

lemma optimalWidth_cases:
  assumes mw: "foldl (optimalWidth_step f cs) (MaxInt64, 0) [2..17] = (m, w)"
  shows "\<forall>j. 2 \<le> j \<and> j \<le> 17 \<longrightarrow> m \<le> f j cs"
    and "if m = MaxInt64 then w = 0
         else 2 \<le> w \<and> w \<le> 17 \<and> f w cs = m \<and> (\<forall>j. 2 \<le> j \<and> j < w \<longrightarrow> m < f j cs)"
proof -
  have "sorted [2..17::int]" "distinct [2..17::int]"
    by (simp_all only: sorted_upto distinct_upto)
  from optimalWidth_scan [OF this, where f = f and cs = cs and ?m0.0 = MaxInt64 and ?v0.0 = 0]
  have "m \<le> MaxInt64 \<and> list_all (\<lambda>j. m \<le> f j cs) [2..17] \<and>
           (if m = MaxInt64 then w = 0
            else w \<in> set [2..17] \<and> f w cs = m \<and> list_all (\<lambda>j. w \<le> j \<or> m < f j cs) [2..17])"
    unfolding mw prod.case .
  then have k: "(\<forall>j\<in>{2..17}. m \<le> f j cs) \<and>
           (if m = MaxInt64 then w = 0
            else w \<in> {2..17} \<and> f w cs = m \<and> (\<forall>j\<in>{2..17}. w \<le> j \<or> m < f j cs))"
    unfolding list_all_iff set_upto by blast
  show "\<forall>j. 2 \<le> j \<and> j \<le> 17 \<longrightarrow> m \<le> f j cs" using k by simp
  show "if m = MaxInt64 then w = 0
         else 2 \<le> w \<and> w \<le> 17 \<and> f w cs = m \<and> (\<forall>j. 2 \<le> j \<and> j < w \<longrightarrow> m < f j cs)"
  proof (cases "m = MaxInt64")
    case True
    then show ?thesis using k by simp
  next
    case False
    then have d: "w \<in> {2..17}" "f w cs = m" "\<forall>j\<in>{2..17}. w \<le> j \<or> m < f j cs" using k by simp_all
    have "m < f j cs" if "2 \<le> j" "j < w" for j
    proof -
      have "j \<in> {2..17}" using that d(1) by simp
      then show ?thesis using d(3) that by force
    qed
    then show ?thesis using False d by simp
  qed
qed

lemma optimalWidth_range: "optimalWidth f cs = 0 \<or> (2 \<le> optimalWidth f cs \<and> optimalWidth f cs \<le> 17)"
proof -
  obtain m w where mw: "foldl (optimalWidth_step f cs) (MaxInt64, 0) [2..17] = (m, w)"
    by (cases "foldl (optimalWidth_step f cs) (MaxInt64, 0) [2..17]")
  have w: "optimalWidth f cs = w" unfolding optimalWidth_def mw by simp
  show ?thesis using optimalWidth_cases(2) [OF mw] unfolding w by (cases "m = MaxInt64") simp_all
qed

lemma optimalWidth_argmin:
  assumes "2 \<le> k" "k \<le> 17" "f k cs < MaxInt64"
  shows "2 \<le> optimalWidth f cs" "optimalWidth f cs \<le> 17"
    "\<forall>j. 2 \<le> j \<and> j \<le> 17 \<longrightarrow> f (optimalWidth f cs) cs \<le> f j cs"
    "\<forall>j. 2 \<le> j \<and> j < optimalWidth f cs \<longrightarrow> f (optimalWidth f cs) cs < f j cs"
proof -
  obtain m w where mw: "foldl (optimalWidth_step f cs) (MaxInt64, 0) [2..17] = (m, w)"
    by (cases "foldl (optimalWidth_step f cs) (MaxInt64, 0) [2..17]")
  have w: "optimalWidth f cs = w" unfolding optimalWidth_def mw by simp
  note c = optimalWidth_cases [OF mw]
  have "m \<le> f k cs" using c(1) assms by blast
  then have ne: "m \<noteq> MaxInt64" using assms(3) by simp
  with c(2) have d: "2 \<le> w" "w \<le> 17" "f w cs = m" "\<forall>j. 2 \<le> j \<and> j < w \<longrightarrow> m < f j cs"
    by simp_all
  show "2 \<le> optimalWidth f cs" "optimalWidth f cs \<le> 17" using d w by simp_all
  show "\<forall>j. 2 \<le> j \<and> j \<le> 17 \<longrightarrow> f (optimalWidth f cs) cs \<le> f j cs" using c(1) d(3) w by simp
  show "\<forall>j. 2 \<le> j \<and> j < optimalWidth f cs \<longrightarrow> f (optimalWidth f cs) cs < f j cs" using d w by simp
qed

lemma sum_list_ceil_div_bounds:
  assumes "list_all (\<lambda>b. 0 \<le> b) bs" "0 < w"
  shows "0 \<le> (\<Sum>b\<leftarrow>bs. ceil_div b w) \<and> (\<Sum>b\<leftarrow>bs. ceil_div b w) \<le> sum_list bs"
  using assms
proof (induction bs)
  case Nil
  then show ?case by simp
next
  case (Cons b bs)
  then have "0 \<le> ceil_div b w" "ceil_div b w \<le> b"
    using ceil_div_bounds [of b w] by simp_all
  with Cons show ?case by simp
qed

lemma member_le_sum_list:
  assumes "list_all (\<lambda>b. 0 \<le> b) bs" "b \<in> set bs"
  shows "b \<le> sum_list (bs :: int list)"
  using assms
proof (induction bs)
  case Nil
  then show ?case by simp
next
  case (Cons a bs)
  have "0 \<le> sum_list bs" using Cons.prems(1) by (intro sum_list_nonneg) (auto simp: list_all_iff)
  with Cons show ?case by auto
qed

lemma nbR1CSConstraints_spec_cost:
  assumes nn: "list_all (\<lambda>c. 0 \<le> bits c) cs"
    and bound: "sum_list (map bits cs) + int (length cs) + 2 ^ 18 < 2 ^ 63"
    and j: "2 \<le> j" "j \<le> 17"
  shows "nbR1CSConstraints j cs = spec_cost j (map bits cs)"
    and "nbR1CSConstraints j cs < MaxInt64"
proof -
  have nn': "list_all (\<lambda>b. 0 \<le> b) (map bits cs)" using nn by (simp add: list_all_iff)
  have S0: "0 \<le> sum_list (map bits cs)" using nn by (intro sum_list_nonneg) (auto simp: list_all_iff)
  have each: "decompSize (bits c) j = ceil_div (bits c) j" if "c \<in> set cs" for c
  proof (rule decompSize_ceil)
    show "0 \<le> bits c" using nn that by (simp add: list_all_iff)
    show "0 < j" using j by simp
    have "bits c \<le> sum_list (map bits cs)"
      using member_le_sum_list [OF nn'] that by simp
    then show "bits c + j - 1 < 2 ^ 63" using bound j by simp
  qed
  then have sum_eq: "(\<Sum>c\<leftarrow>cs. decompSize (bits c) j) = (\<Sum>b\<leftarrow>map bits cs. ceil_div b j)"
    by (simp add: comp_def cong: map_cong)
  have sb: "0 \<le> (\<Sum>b\<leftarrow>map bits cs. ceil_div b j)"
    "(\<Sum>b\<leftarrow>map bits cs. ceil_div b j) \<le> sum_list (map bits cs)"
    using sum_list_ceil_div_bounds [OF nn', of j] j by simp_all
  have "nat j \<le> 17" using j by simp
  then have "(2::int) ^ nat j \<le> 2 ^ 17" by (intro power_increasing) simp_all
  then have p: "(2::int) ^ nat j \<le> 131072" by simp
  have p0: "0 < (2::int) ^ nat j" by simp
  have c: "spec_cost j (map bits cs) = 2 ^ nat j + (\<Sum>b\<leftarrow>map bits cs. ceil_div b j) + int (length cs) + 1"
    by (simp add: spec_cost_def)
  have lo: "- (2 ^ 63) \<le> spec_cost j (map bits cs)" unfolding c using sb p0 by simp
  have hi: "spec_cost j (map bits cs) < 2 ^ 63 - 1" unfolding c using sb p bound by simp
  have "nbR1CSConstraints j cs = int64 (spec_cost j (map bits cs))"
    unfolding nbR1CSConstraints_sum sum_eq c ..
  also have "\<dots> = spec_cost j (map bits cs)" using lo hi by (intro int64_id) simp_all
  finally show "nbR1CSConstraints j cs = spec_cost j (map bits cs)" .
  then show "nbR1CSConstraints j cs < MaxInt64" using hi by (simp add: MaxInt64_def)
qed

lemma nbR1CSConstraints_mset:
  assumes "mset (map bits cs) = mset (map bits ds)"
  shows "nbR1CSConstraints j cs = nbR1CSConstraints j ds"
proof -
  have "(\<Sum>c\<leftarrow>cs. decompSize (bits c) j) = (\<Sum>b\<leftarrow>map bits cs. decompSize b j)"
    by (simp add: comp_def)
  also have "\<dots> = sum_mset (image_mset (\<lambda>b. decompSize b j) (mset (map bits cs)))"
    by (metis mset_map sum_mset_sum_list)
  also have "\<dots> = sum_mset (image_mset (\<lambda>b. decompSize b j) (mset (map bits ds)))"
    using assms by simp
  also have "\<dots> = (\<Sum>b\<leftarrow>map bits ds. decompSize b j)"
    by (metis mset_map sum_mset_sum_list)
  also have "\<dots> = (\<Sum>c\<leftarrow>ds. decompSize (bits c) j)"
    by (simp add: comp_def)
  finally have s: "(\<Sum>c\<leftarrow>cs. decompSize (bits c) j) = (\<Sum>c\<leftarrow>ds. decompSize (bits c) j)" .
  have "length cs = length ds"
    using assms by (metis length_map size_mset)
  then show ?thesis by (simp add: nbR1CSConstraints_sum s)
qed

section \<open>The width optimizer: minimal cost (C5)\<close>

lemma optimalWidth_step_cong:
  assumes "\<And>j. f j cs = g j ds"
  shows "optimalWidth f cs = optimalWidth g ds"
proof -
  have "optimalWidth_step f cs = optimalWidth_step g ds"
    by (intro ext) (simp add: optimalWidth_step_def assms)
  then show ?thesis by (simp only: optimalWidth_def)
qed

lemma getOptimalBasewidth_mset:
  assumes "mset (map bits ds) = mset (map bits cs)"
  shows "getOptimalBasewidth ds = getOptimalBasewidth cs"
  unfolding getOptimalBasewidth_def
  by (rule optimalWidth_step_cong) (rule nbR1CSConstraints_mset [OF assms])

lemma getOptimalBasewidth_spec:
  assumes nn: "list_all (\<lambda>c. 0 \<le> bits c) cs"
    and bound: "sum_list (map bits cs) + int (length cs) + 2 ^ 18 < 2 ^ 63"
  shows "2 \<le> getOptimalBasewidth cs \<and> getOptimalBasewidth cs \<le> 17 \<and>
    (\<forall>j. 2 \<le> j \<and> j \<le> 17 \<longrightarrow>
       spec_cost (getOptimalBasewidth cs) (map bits cs) \<le> spec_cost j (map bits cs)) \<and>
    (\<forall>j. 2 \<le> j \<and> j < getOptimalBasewidth cs \<longrightarrow>
       spec_cost (getOptimalBasewidth cs) (map bits cs) < spec_cost j (map bits cs)) \<and>
    (\<forall>ds. mset (map bits ds) = mset (map bits cs) \<longrightarrow>
       getOptimalBasewidth ds = getOptimalBasewidth cs)"
proof -
  let ?w = "getOptimalBasewidth cs"
  note cost = nbR1CSConstraints_spec_cost [OF nn bound]
  have lt: "nbR1CSConstraints 2 cs < MaxInt64" by (rule cost(2)) simp_all
  note am = optimalWidth_argmin [of 2 nbR1CSConstraints cs, OF _ _ lt, folded getOptimalBasewidth_def]
  have r: "2 \<le> ?w" "?w \<le> 17" using am(1,2) by simp_all
  have cw: "nbR1CSConstraints ?w cs = spec_cost ?w (map bits cs)" by (rule cost(1) [OF r])
  have a: "spec_cost ?w (map bits cs) \<le> spec_cost j (map bits cs)" if "2 \<le> j" "j \<le> 17" for j
  proof -
    have "nbR1CSConstraints ?w cs \<le> nbR1CSConstraints j cs" using am(3) that by simp
    then show ?thesis using cw cost(1) [OF that] by simp
  qed
  have b: "spec_cost ?w (map bits cs) < spec_cost j (map bits cs)" if "2 \<le> j" "j < ?w" for j
  proof -
    have j17: "j \<le> 17" using that r by simp
    have "nbR1CSConstraints ?w cs < nbR1CSConstraints j cs" using am(4) that by simp
    then show ?thesis using cw cost(1) [OF that(1) j17] by simp
  qed
  show ?thesis using r a b getOptimalBasewidth_mset by blast
qed

text \<open>
  Claim C5, as amended. For every batch whose bit widths are non-negative and small
  enough that no cost overflows the 64-bit \<^verbatim>\<open>int\<close> (the widths, the number of
  requests and \<open>2^18\<close> sum to less than \<open>2^63\<close>), the optimizer's width lies in
  \<open>[2, 17]\<close>, no width in \<open>[2, 17]\<close> has a lower cost under
  \<open>cost(w) = 2^w + sum of ceil(bitWidth / w) + numRequests + 1\<close>, every smaller width
  in the scan has a strictly higher cost (ties go to the smaller width), and the result
  depends only on the multiset of bit widths.
\<close>

theorem optimalWidth_minimal:
  assumes nn: "list_all (\<lambda>c. 0 \<le> bits c) cs"
    and bound: "sum_list (map bits cs) + int (length cs) + 2 ^ 18 < 2 ^ 63"
  shows "2 \<le> getOptimalBasewidth cs \<and> getOptimalBasewidth cs \<le> 17 \<and>
    (\<forall>j. 2 \<le> j \<and> j \<le> 17 \<longrightarrow>
       spec_cost (getOptimalBasewidth cs) (map bits cs) \<le> spec_cost j (map bits cs)) \<and>
    (\<forall>j. 2 \<le> j \<and> j < getOptimalBasewidth cs \<longrightarrow>
       spec_cost (getOptimalBasewidth cs) (map bits cs) < spec_cost j (map bits cs)) \<and>
    (\<forall>ds. mset (map bits ds) = mset (map bits cs) \<longrightarrow>
       getOptimalBasewidth ds = getOptimalBasewidth cs)"
  using getOptimalBasewidth_spec [OF nn bound] .

lemma batch_width: "getOptimalBasewidth batch_8_8_16 = 2"
  unfolding getOptimalBasewidth_def batch_8_8_16_def by code_simp

theorem optimalWidth_minimal_witness:
  "list_all (\<lambda>c. 0 \<le> bits c) batch_8_8_16 \<and>
   sum_list (map bits batch_8_8_16) + int (length batch_8_8_16) + 2 ^ 18 < 2 ^ 63 \<and>
   2 \<le> getOptimalBasewidth batch_8_8_16 \<and> getOptimalBasewidth batch_8_8_16 \<le> 17 \<and>
   spec_cost (getOptimalBasewidth batch_8_8_16) (map bits batch_8_8_16)
     \<le> spec_cost 4 (map bits batch_8_8_16)"
proof -
  have h1: "list_all (\<lambda>c. 0 \<le> bits c) batch_8_8_16" by (simp add: batch_8_8_16_def)
  have h2: "sum_list (map bits batch_8_8_16) + int (length batch_8_8_16) + 2 ^ 18 < 2 ^ 63"
    by (simp add: batch_8_8_16_def)
  note t = optimalWidth_minimal [OF h1 h2]
  from t have r: "2 \<le> getOptimalBasewidth batch_8_8_16" "getOptimalBasewidth batch_8_8_16 \<le> 17"
    by blast+
  from t have a: "\<forall>j. 2 \<le> j \<and> j \<le> 17 \<longrightarrow>
       spec_cost (getOptimalBasewidth batch_8_8_16) (map bits batch_8_8_16)
         \<le> spec_cost j (map bits batch_8_8_16)"
    by blast
  have "spec_cost (getOptimalBasewidth batch_8_8_16) (map bits batch_8_8_16)
     \<le> spec_cost 4 (map bits batch_8_8_16)"
    using a [rule_format, of 4] by simp
  then show ?thesis using h1 h2 r by blast
qed

text \<open>
  Without the bound the claim fails: for one request of \<open>2^63 - 1\<close> bits the sum
  \<^verbatim>\<open>varSize + limbSize - 1\<close> wraps around, the optimizer returns 2, and width 17 has
  a strictly lower cost in the specification's formula.
\<close>

theorem optimalWidth_overflow_counterexample:
  "getOptimalBasewidth [\<lparr>cv = Wire 1, bits = 2 ^ 63 - 1\<rparr>] = 2 \<and>
   spec_cost 17 [2 ^ 63 - 1] < spec_cost 2 [2 ^ 63 - 1]"
proof -
  have "getOptimalBasewidth [\<lparr>cv = Wire 1, bits = 2 ^ 63 - 1\<rparr>] = 2"
    unfolding getOptimalBasewidth_def by code_simp
  moreover have "spec_cost 17 [2 ^ 63 - 1] < spec_cost 2 [2 ^ 63 - 1]"
    by (simp add: spec_cost_def ceil_div_def)
  ultimately show ?thesis by simp
qed

section \<open>DecomposeHint: the round trip (C6)\<close>

lemma recompose_Nil: "recompose w [] = 0"
  by (simp add: recompose_def)

lemma recompose_Cons: "recompose w (x # xs) = x + 2 ^ nat w * recompose w xs"
proof -
  have "(\<Sum>i<Suc (length xs). (x # xs) ! i * (2 ^ nat w) ^ i)
      = (x # xs) ! 0 * (2 ^ nat w) ^ 0 + (\<Sum>i<length xs. (x # xs) ! Suc i * (2 ^ nat w) ^ Suc i)"
    by (rule sum.lessThan_Suc_shift)
  also have "\<dots> = x + (\<Sum>i<length xs. 2 ^ nat w * (xs ! i * (2 ^ nat w) ^ i))"
    by (simp add: mult_ac)
  also have "\<dots> = x + 2 ^ nat w * (\<Sum>i<length xs. xs ! i * (2 ^ nat w) ^ i)"
    by (simp only: sum_distrib_left)
  finally show ?thesis by (simp add: recompose_def)
qed

lemma DecomposeHint_loop_length: "length (DecomposeHint_loop n base k tmp) = n"
  by (induction n arbitrary: tmp) simp_all

lemma DecomposeHint_loop_recompose:
  "recompose (int k) (DecomposeHint_loop n (2 ^ k) k tmp) = tmp mod (2 ^ k) ^ n"
proof (induction n arbitrary: tmp)
  case 0
  then show ?case by (simp add: recompose_Nil)
next
  case (Suc n)
  have "recompose (int k) (DecomposeHint_loop (Suc n) (2 ^ k) k tmp)
      = tmp mod 2 ^ k + 2 ^ k * ((tmp div 2 ^ k) mod (2 ^ k) ^ n)"
    by (simp add: recompose_Cons Suc.IH)
  also have "\<dots> = tmp mod (2 ^ k * (2 ^ k) ^ n)"
    by (simp add: zmod_zmult2_eq)
  finally show ?case by simp
qed

lemma DecomposeHint_loop_limbs:
  "list_all (\<lambda>l. 0 \<le> l \<and> l < 2 ^ k) (DecomposeHint_loop n (2 ^ k) k tmp)"
  by (induction n arbitrary: tmp) simp_all

lemma ceil_div_mult_ge:
  assumes "0 < w"
  shows "b \<le> ceil_div b w * w"
proof -
  have "- b = (- b) div w * w + (- b) mod w" by simp
  moreover have "0 \<le> (- b) mod w" using assms by simp
  ultimately have "(- b) div w * w \<le> - b" by linarith
  then show ?thesis by (simp add: ceil_div_def)
qed

text \<open>
  Claim C6. For every bit width in \<open>[1, 253]\<close>, every limb width in \<open>[2, 17]\<close> and
  every value \<open>0 \<le> val < 2^bitWidth\<close>, the hint run with
  \<open>ceil(bitWidth / limbWidth)\<close> outputs succeeds, and the recomposition
  \<open>sum of limb_i * (2^limbWidth)^i\<close> of its outputs, least significant first, is the
  value; each limb lies in \<open>[0, 2^limbWidth)\<close>.
\<close>

theorem DecomposeHint_roundtrip:
  assumes bw: "1 \<le> bitWidth" "bitWidth \<le> 253"
    and lw: "2 \<le> limbWidth" "limbWidth \<le> 17"
    and v: "0 \<le> val" "val < 2 ^ nat bitWidth"
  shows "\<exists>limbs. DecomposeHint m [bitWidth, limbWidth, val] (nat (ceil_div bitWidth limbWidth)) = Inr limbs
           \<and> length limbs = nat (ceil_div bitWidth limbWidth)
           \<and> list_all (\<lambda>l. 0 \<le> l \<and> l < 2 ^ nat limbWidth) limbs
           \<and> recompose limbWidth limbs = val"
proof -
  let ?n = "nat (ceil_div bitWidth limbWidth)"
  let ?k = "nat limbWidth"
  have u: "IsUint64 bitWidth" "IsUint64 limbWidth" using bw lw by (simp_all add: IsUint64_def)
  have i: "int64 bitWidth = bitWidth" "int64 limbWidth = limbWidth"
    using bw lw by (simp_all add: int64_id)
  have d: "decompSize bitWidth limbWidth = ceil_div bitWidth limbWidth"
    using bw lw by (intro decompSize_ceil) simp_all
  have c0: "0 \<le> ceil_div bitWidth limbWidth" using ceil_div_bounds(1) [of bitWidth limbWidth] bw lw by simp
  have k: "nat (uint_of_int limbWidth) = ?k" using lw by (simp add: uint_of_int_def)
  have run: "DecomposeHint m [bitWidth, limbWidth, val] ?n = Inr (DecomposeHint_loop ?n (2 ^ ?k) ?k val)"
    using u i d c0 k lw by (simp add: DecomposeHint_def Let_def)
  have "bitWidth \<le> ceil_div bitWidth limbWidth * limbWidth"
    using lw by (intro ceil_div_mult_ge) simp
  then have "nat bitWidth \<le> ?k * ?n"
    using c0 lw bw by (metis mult.commute nat_mono nat_mult_distrib)
  then have "(2::int) ^ nat bitWidth \<le> 2 ^ (?k * ?n)" by (intro power_increasing) simp_all
  then have "val < (2 ^ ?k) ^ ?n" using v by (simp add: power_mult)
  then have "val mod (2 ^ ?k) ^ ?n = val" using v by simp
  then have "recompose limbWidth (DecomposeHint_loop ?n (2 ^ ?k) ?k val) = val"
    using DecomposeHint_loop_recompose [of ?k ?n val] lw by simp
  then show ?thesis
    using run DecomposeHint_loop_length DecomposeHint_loop_limbs by blast
qed

theorem DecomposeHint_roundtrip_witness:
  "DecomposeHint 0 [16, 4, 43981] 4 = Inr [13, 12, 11, 10] \<and> recompose 4 [13, 12, 11, 10] = 43981"
proof -
  have c: "nat (ceil_div 16 4) = 4" by (simp add: ceil_div_def)
  obtain limbs where l: "DecomposeHint 0 [16, 4, 43981] 4 = Inr limbs" "recompose 4 limbs = 43981"
    using DecomposeHint_roundtrip [of 16 4 43981 0] unfolding c by auto
  have "DecomposeHint 0 [16, 4, 43981] 4 = Inr [13, 12, 11, 10]"
    by code_simp
  then show ?thesis using l by simp
qed

section \<open>Finalization: idempotence (C7), the empty batch (C8), the scenario (C1)\<close>

lemma handle_closed: "closed c \<Longrightarrow> handleVarunaRangeCheck api c b = (Inr (), c, b)"
  by (simp add: handleVarunaRangeCheck_def)

lemma handle_closes:
  "handleVarunaRangeCheck api c b = (r, c1, b1) \<Longrightarrow> closed c1"
  by (auto simp: handleVarunaRangeCheck_def Let_def split: if_splits prod.splits sum.splits option.splits)

lemma handle_collected:
  "handleVarunaRangeCheck api c b = (r, c1, b1) \<Longrightarrow> collected c1 = collected c"
  by (auto simp: handleVarunaRangeCheck_def Let_def split: if_splits prod.splits sum.splits option.splits)

lemma handle_empty:
  "\<not> closed c \<Longrightarrow> collected c = [] \<Longrightarrow> handleVarunaRangeCheck api c b = (Inr (), c\<lparr>closed := True\<rparr>, b)"
  by (simp add: handleVarunaRangeCheck_def)

lemma reachable_open_zero:
  "reachable api c \<Longrightarrow> \<not> closed c \<Longrightarrow> lookups c = zero_Lookup"
proof (induction rule: reachable.induct)
  case fresh
  then show ?case by (simp add: zero_varunaChecker_def)
next
  case (checked c x n c1)
  then show ?case by (auto simp: Check_def split: if_splits)
next
  case (finalized c b r c1 b1)
  then show ?case using handle_closes [OF finalized.hyps(2)] by simp
qed

text \<open>
  Claim C7. On a closed collector the finalization is a no-op: it returns successfully
  and leaves the collector (its Lookup included) and the builder unchanged, and
  \<^verbatim>\<open>Check\<close> panics with "checker already closed" instead of appending. After any
  first finalization, whatever it returned, the collector is closed; so a second one
  returns successfully with the same Lookup, and every later \<^verbatim>\<open>Check\<close> fails.
\<close>

theorem Finalize_idempotent:
  "(closed c \<longrightarrow>
      handleVarunaRangeCheck api c b = (Inr (), c, b) \<and>
      Check c x n = Inl (Panic ''checker already closed'')) \<and>
   (case handleVarunaRangeCheck api c b of
      (r1, c1, b1) \<Rightarrow>
        closed c1 \<and>
        handleVarunaRangeCheck api c1 b1 = (Inr (), c1, b1) \<and>
        lookups (fst (snd (handleVarunaRangeCheck api c1 b1))) = lookups c1 \<and>
        Check c1 x n = Inl (Panic ''checker already closed''))"
proof -
  obtain r1 c1 b1 where h: "handleVarunaRangeCheck api c b = (r1, c1, b1)"
    by (cases "handleVarunaRangeCheck api c b")
  have first: "closed c \<longrightarrow>
      handleVarunaRangeCheck api c b = (Inr (), c, b) \<and>
      Check c x n = Inl (Panic ''checker already closed'')"
    by (simp add: handle_closed Check_def)
  have cl: "closed c1" using handle_closes [OF h] .
  have again: "handleVarunaRangeCheck api c1 b1 = (Inr (), c1, b1)" using cl by (rule handle_closed)
  have chk: "Check c1 x n = Inl (Panic ''checker already closed'')" using cl by (simp add: Check_def)
  have second: "case handleVarunaRangeCheck api c b of
      (r1, c1, b1) \<Rightarrow>
        closed c1 \<and>
        handleVarunaRangeCheck api c1 b1 = (Inr (), c1, b1) \<and>
        lookups (fst (snd (handleVarunaRangeCheck api c1 b1))) = lookups c1 \<and>
        Check c1 x n = Inl (Panic ''checker already closed'')"
    unfolding h using cl again chk by simp
  show ?thesis using first second by blast
qed

text \<open>
  Claim C8. When the finalization runs on an open collector with no collected request
  (a collector in any state it can reach), it returns successfully without a panic, the
  collector is closed, its Lookup is empty (table size 0, no member), and the builder's
  state is unchanged: no hint, no constraint.
\<close>

theorem Finalize_empty:
  assumes "reachable api c" "\<not> closed c" "collected c = []"
  shows "\<exists>c1. handleVarunaRangeCheck api c b = (Inr (), c1, b) \<and> closed c1 \<and>
           NbTable (lookups c1) = 0 \<and> members (lookups c1) = [] \<and> collected c1 = []"
proof -
  have z: "lookups c = zero_Lookup" using assms by (intro reachable_open_zero)
  have "handleVarunaRangeCheck api c b = (Inr (), c\<lparr>closed := True\<rparr>, b)"
    using assms by (intro handle_empty)
  then show ?thesis using z assms by (simp add: zero_Lookup_def)
qed


theorem Finalize_idempotent_witness:
  "closed closed_checker \<and>
   handleVarunaRangeCheck sym_r1cs closed_checker sym_start = (Inr (), closed_checker, sym_start) \<and>
   Check closed_checker (Wire 1) 8 = Inl (Panic ''checker already closed'')"
  using Finalize_idempotent [of closed_checker sym_r1cs sym_start "Wire 1" 8]
  by (simp add: closed_checker_def)

theorem Finalize_empty_witness:
  "reachable sym_r1cs zero_varunaChecker \<and>
   \<not> closed (zero_varunaChecker :: sym varunaChecker) \<and>
   collected (zero_varunaChecker :: sym varunaChecker) = [] \<and>
   fst (handleVarunaRangeCheck sym_r1cs zero_varunaChecker sym_start) = Inr () \<and>
   closed (fst (snd (handleVarunaRangeCheck sym_r1cs zero_varunaChecker sym_start))) \<and>
   lookups (fst (snd (handleVarunaRangeCheck sym_r1cs zero_varunaChecker sym_start)))
     = \<lparr>NbTable = 0, members = []\<rparr> \<and>
   snd (snd (handleVarunaRangeCheck sym_r1cs zero_varunaChecker sym_start)) = sym_start"
proof -
  have r: "reachable sym_r1cs zero_varunaChecker" by (rule reachable.fresh)
  have o: "\<not> closed (zero_varunaChecker :: sym varunaChecker)"
    and e: "collected (zero_varunaChecker :: sym varunaChecker) = []"
    by (simp_all add: zero_varunaChecker_def)
  from Finalize_empty [OF r o e, of sym_start] obtain c1 where
    c: "handleVarunaRangeCheck sym_r1cs zero_varunaChecker sym_start = (Inr (), c1, sym_start)"
       "closed c1" "NbTable (lookups c1) = 0" "members (lookups c1) = []"
    by blast
  show ?thesis using r o e c by simp
qed

lemma handle_decompose_length:
  assumes "hint_arity api"
  shows "handle_decompose api w cs acc b = (Inr d, b1) \<Longrightarrow>
           length d = length acc + (\<Sum>c\<leftarrow>cs. nat (decompSize (bits c) w))"
proof (induction cs arbitrary: acc b)
  case Nil
  then show ?case by simp
next
  case (Cons c cs)
  from Cons.prems have w: "w \<noteq> 0" by (auto split: if_splits)
  obtain r b2 where nh: "NewHint api (decompSize (bits c) w) (bits c) w (cv c) b = (r, b2)"
    by (cases "NewHint api (decompSize (bits c) w) (bits c) w (cv c) b")
  from Cons.prems w nh obtain limbs where r: "r = Inr limbs"
    by (cases r) (auto simp: Let_def)
  have len: "length limbs = nat (decompSize (bits c) w)"
    using assms nh r unfolding hint_arity_def by blast
  obtain composed b3 where hc: "handle_compose api (2 ^ nat w) limbs 0 (Constant api 0) b2 = (composed, b3)"
    by (cases "handle_compose api (2 ^ nat w) limbs 0 (Constant api 0) b2")
  from Cons.prems w nh r hc
  have "handle_decompose api w cs (acc @ limbs) (AssertIsEqual api composed (cv c) b3) = (Inr d, b1)"
    by (simp add: Let_def)
  from Cons.IH [OF this] show ?case using len by simp
qed

lemma handle_decompose_zero:
  "cs \<noteq> [] \<Longrightarrow> handle_decompose api 0 cs acc b = (Inl (Panic ''integer divide by zero''), b)"
  by (cases cs) simp_all

lemma handle_members_None:
  "handle_members api b xs acc = (None, ms) \<Longrightarrow>
     map Some ms = map Some acc @ map (\<lambda>x. ToCanonicalVariable api x b) xs"
proof (induction xs arbitrary: acc)
  case Nil
  then show ?case by simp
next
  case (Cons x xs)
  then show ?case by (cases "ToCanonicalVariable api x b") auto
qed

lemma handle_members_Some:
  "handle_members api b xs acc = (Some f, ms) \<Longrightarrow>
     f = Error ''unhandled type of variable'' \<and> length ms < length acc + length xs"
proof (induction xs arbitrary: acc)
  case Nil
  then show ?case by simp
next
  case (Cons x xs)
  then show ?case by (cases "ToCanonicalVariable api x b") force+
qed

lemma shl1_width: "2 \<le> w \<Longrightarrow> w \<le> 17 \<Longrightarrow> shl1 w = 2 ^ nat w"
proof -
  assume w: "2 \<le> w" "w \<le> 17"
  then have "nat w \<le> 17" by simp
  then have "(2::int) ^ nat w \<le> 2 ^ 17" by (intro power_increasing) simp_all
  then have "(2::int) ^ nat w < 2 ^ 63" by simp
  moreover have "- (2 ^ 63) \<le> (2::int) ^ nat w" by (rule order_trans [of _ 0]) simp_all
  ultimately show ?thesis unfolding shl1_def by (intro int64_id)
qed

lemma getOptimalBasewidth_range:
  "getOptimalBasewidth cs = 0 \<or> (2 \<le> getOptimalBasewidth cs \<and> getOptimalBasewidth cs \<le> 17)"
  unfolding getOptimalBasewidth_def by (rule optimalWidth_range)

lemma handle_ok:
  assumes "\<not> closed c" "collected c \<noteq> []"
    and "handleVarunaRangeCheck api c b = (Inr (), c1, b1)"
  shows "\<exists>d ms. handle_decompose api (getOptimalBasewidth (collected c)) (collected c) [] b = (Inr d, b1) \<and>
           handle_members api b1 d [] = (None, ms) \<and>
           2 \<le> getOptimalBasewidth (collected c) \<and> getOptimalBasewidth (collected c) \<le> 17 \<and>
           c1 = c\<lparr>lookups := \<lparr>NbTable = 2 ^ nat (getOptimalBasewidth (collected c)), members = ms\<rparr>, closed := True\<rparr>"
proof -
  let ?w = "getOptimalBasewidth (collected c)"
  obtain rd b2 where hd: "handle_decompose api ?w (collected c) [] b = (rd, b2)"
    by (cases "handle_decompose api ?w (collected c) [] b")
  from assms hd obtain d where rd: "rd = Inr d"
    by (cases rd) (auto simp: handleVarunaRangeCheck_def Let_def)
  obtain e ms where hm: "handle_members api b2 d [] = (e, ms)"
    by (cases "handle_members api b2 d []")
  from assms hd rd hm have e: "e = None"
    by (cases e) (auto simp: handleVarunaRangeCheck_def Let_def)
  from assms hd rd hm e
  have c1: "c1 = c\<lparr>lookups := \<lparr>NbTable = shl1 ?w, members = ms\<rparr>, closed := True\<rparr>" and b: "b1 = b2"
    by (auto simp: handleVarunaRangeCheck_def Let_def)
  have "?w \<noteq> 0"
  proof
    assume "?w = 0"
    then have "handle_decompose api ?w (collected c) [] b = (Inl (Panic ''integer divide by zero''), b)"
      using assms(2) by (simp add: handle_decompose_zero)
    then show False using hd rd by simp
  qed
  then have w: "2 \<le> ?w" "?w \<le> 17" using getOptimalBasewidth_range [of "collected c"] by auto
  show ?thesis using hd rd hm e c1 b w by (simp add: shl1_width)
qed

lemma hint_arity_sym: "hint_arity (sym_api lin)"
  by (auto simp: hint_arity_def sym_api_def split: if_splits)

lemma scenario_width:
  assumes "map bits cs = [8, 8, 16]"
  shows "getOptimalBasewidth cs = 2"
proof -
  have "mset (map bits cs) = mset (map bits batch_8_8_16)"
    using assms by (simp add: batch_8_8_16_def)
  then have "getOptimalBasewidth cs = getOptimalBasewidth batch_8_8_16"
    by (rule getOptimalBasewidth_mset)
  then show ?thesis by (simp add: batch_width)
qed

lemma decompSize_8_2: "decompSize 8 2 = 4" and decompSize_16_2: "decompSize 16 2 = 8"
  by (simp_all add: decompSize_def quo_def int64_def)

text \<open>
  Claim C1, as amended. For a batch of three requests with bit widths 8, 8 and 16 the
  optimizer selects limb width 2: the costs
  \<open>2^w + ceil(8/w)*2 + ceil(16/w) + 3 + 1\<close> are 24 at widths 2 and 3 and 28 at width
  4, nothing in \<open>[2, 17]\<close> is cheaper than 24, and the tie goes to the smaller width. A
  successful finalization of this batch (with a builder whose hints return as many
  variables as asked for) closes the collector and produces a Lookup with table size 4
  and \<open>4 + 4 + 8 = 16\<close> members.
\<close>

theorem scenario_8_8_16:
  assumes arity: "hint_arity api"
    and batch: "map bits (collected c) = [8, 8, 16]"
    and op: "\<not> closed c"
    and ok: "handleVarunaRangeCheck api c b = (Inr (), c1, b1)"
  shows "getOptimalBasewidth (collected c) = 2 \<and>
         spec_cost 2 [8, 8, 16] = 24 \<and> spec_cost 3 [8, 8, 16] = 24 \<and> spec_cost 4 [8, 8, 16] = 28 \<and>
         (\<forall>j. 2 \<le> j \<and> j \<le> 17 \<longrightarrow> spec_cost 2 [8, 8, 16] \<le> spec_cost j [8, 8, 16]) \<and>
         closed c1 \<and> NbTable (lookups c1) = 4 \<and> length (members (lookups c1)) = 16"
proof -
  have w: "getOptimalBasewidth (collected c) = 2" using batch by (rule scenario_width)
  have ne: "collected c \<noteq> []" using batch by auto
  from handle_ok [OF op ne ok] obtain d ms where
    h: "handle_decompose api 2 (collected c) [] b = (Inr d, b1)"
       "handle_members api b1 d [] = (None, ms)"
       "c1 = c\<lparr>lookups := \<lparr>NbTable = 2 ^ nat 2, members = ms\<rparr>, closed := True\<rparr>"
    unfolding w by blast
  have "(\<Sum>x\<leftarrow>collected c. nat (decompSize (bits x) 2)) = (\<Sum>n\<leftarrow>map bits (collected c). nat (decompSize n 2))"
    by (simp add: comp_def)
  also have "\<dots> = 16" unfolding batch by (simp add: decompSize_8_2 decompSize_16_2)
  finally have "length d = 16" using handle_decompose_length [OF arity h(1)] by simp
  moreover have "length ms = length d" using handle_members_None [OF h(2)] by (metis append_Nil length_map list.simps(8))
  ultimately have m: "length (members (lookups c1)) = 16" using h(3) by simp
  have nn: "list_all (\<lambda>x. 0 \<le> bits x) (collected c)"
  proof -
    have "list_all (\<lambda>n. 0 \<le> n) (map bits (collected c))" unfolding batch by simp
    then show ?thesis by (simp add: list_all_iff)
  qed
  have bd: "sum_list (map bits (collected c)) + int (length (collected c)) + 2 ^ 18 < 2 ^ 63"
  proof -
    have "length (map bits (collected c)) = 3" unfolding batch by simp
    then have "length (collected c) = 3" by simp
    then show ?thesis unfolding batch by simp
  qed
  have mn: "\<forall>j. 2 \<le> j \<and> j \<le> 17 \<longrightarrow> spec_cost 2 [8, 8, 16] \<le> spec_cost j [8, 8, 16]"
    using getOptimalBasewidth_spec [OF nn bd] unfolding w batch by blast
  have costs: "spec_cost 2 [8, 8, 16] = 24" "spec_cost 3 [8, 8, 16] = 24" "spec_cost 4 [8, 8, 16] = 28"
    by (simp_all add: spec_cost_def ceil_div_def)
  show ?thesis using w costs mn m h(3) by simp
qed

theorem scenario_8_8_16_witness:
  "hint_arity sym_r1cs \<and>
   map bits (collected scenario_checker) = [8, 8, 16] \<and>
   \<not> closed scenario_checker \<and>
   fst (handleVarunaRangeCheck sym_r1cs scenario_checker sym_start) = Inr () \<and>
   getOptimalBasewidth (collected scenario_checker) = 2 \<and>
   NbTable (lookups (fst (snd (handleVarunaRangeCheck sym_r1cs scenario_checker sym_start)))) = 4 \<and>
   length (members (lookups (fst (snd (handleVarunaRangeCheck sym_r1cs scenario_checker sym_start))))) = 16"
proof -
  obtain r c1 b1 where h: "handleVarunaRangeCheck sym_r1cs scenario_checker sym_start = (r, c1, b1)"
    by (cases "handleVarunaRangeCheck sym_r1cs scenario_checker sym_start")
  have "fst (handleVarunaRangeCheck sym_r1cs scenario_checker sym_start) = Inr ()"
    by code_simp
  then have r: "r = Inr ()" using h by simp
  have a: "hint_arity sym_r1cs" by (simp add: sym_r1cs_def hint_arity_sym)
  have b: "map bits (collected scenario_checker) = [8, 8, 16]"
    by (simp add: scenario_checker_def batch_8_8_16_def)
  have o: "\<not> closed scenario_checker" by (simp add: scenario_checker_def zero_varunaChecker_def)
  from scenario_8_8_16 [OF a b o h [unfolded r]] show ?thesis using a b o h r by simp
qed

text \<open>
  The scenario as the specification states it fails: the selected width is 2, not 4, and
  the Lookup has 16 members and table size 4, not 8 and 16.
\<close>

theorem scenario_8_8_16_counterexample:
  "getOptimalBasewidth batch_8_8_16 = 2 \<and> getOptimalBasewidth batch_8_8_16 \<noteq> 4 \<and>
   nbR1CSConstraints 2 batch_8_8_16 = 24 \<and> nbR1CSConstraints 4 batch_8_8_16 = 28 \<and>
   fst (handleVarunaRangeCheck sym_r1cs scenario_checker sym_start) = Inr () \<and>
   NbTable (lookups (fst (snd (handleVarunaRangeCheck sym_r1cs scenario_checker sym_start)))) = 4 \<and>
   NbTable (lookups (fst (snd (handleVarunaRangeCheck sym_r1cs scenario_checker sym_start)))) \<noteq> 16 \<and>
   length (members (lookups (fst (snd (handleVarunaRangeCheck sym_r1cs scenario_checker sym_start))))) = 16 \<and>
   length (members (lookups (fst (snd (handleVarunaRangeCheck sym_r1cs scenario_checker sym_start))))) \<noteq> 8"
proof -
  have 1: "nbR1CSConstraints 2 batch_8_8_16 = 24" "nbR1CSConstraints 4 batch_8_8_16 = 28"
    unfolding batch_8_8_16_def by code_simp+
  have 2: "fst (handleVarunaRangeCheck sym_r1cs scenario_checker sym_start) = Inr ()"
    by code_simp
  have 3: "NbTable (lookups (fst (snd (handleVarunaRangeCheck sym_r1cs scenario_checker sym_start)))) = 4"
    by code_simp
  have 4: "length (members (lookups (fst (snd (handleVarunaRangeCheck sym_r1cs scenario_checker sym_start))))) = 16"
    by code_simp
  show ?thesis using 1 2 3 4 batch_width by simp
qed

section \<open>One collector per build (C10)\<close>

lemma NewVarunaRangechecker_stored:
  "implements_kvstore s \<Longrightarrow> kv s = Some (Checker a) \<Longrightarrow> NewVarunaRangechecker s = (Inr a, s)"
  by (simp add: NewVarunaRangechecker_def)

lemma NewVarunaRangechecker_first:
  "implements_kvstore s \<Longrightarrow> kv s = None \<Longrightarrow>
     NewVarunaRangechecker s =
       (Inr (length (heap s)),
        s\<lparr>heap := heap s @ [zero_varunaChecker],
          kv := Some (Checker (length (heap s))),
          deferred := deferred s @ [length (heap s)]\<rparr>)"
  by (simp add: NewVarunaRangechecker_def Let_def)

lemma checkedVariable_eta: "\<lparr>cv = cv r, bits = bits r\<rparr> = (r :: 'v checkedVariable)"
  by (cases r) simp

lemma Check_at_open:
  "a < length (heap s) \<Longrightarrow> \<not> closed (heap s ! a) \<Longrightarrow>
     Check_at a x n s =
       (Inr (), s\<lparr>heap := (heap s)[a := (heap s ! a)\<lparr>collected := collected (heap s ! a) @ [\<lparr>cv = x, bits = n\<rparr>]\<rparr>]\<rparr>)"
  by (simp add: Check_at_def Check_def)

lemma check_calls_stored:
  assumes "implements_kvstore s" "kv s = Some (Checker a)" "a < length (heap s)" "\<not> closed (heap s ! a)"
  shows "check_calls rs s =
           (Inr (replicate (length rs) a),
            s\<lparr>heap := (heap s)[a := (heap s ! a)\<lparr>collected := collected (heap s ! a) @ rs\<rparr>]\<rparr>)"
  using assms
proof (induction rs arbitrary: s)
  case Nil
  then show ?case by simp
next
  case (Cons r rs)
  let ?s2 = "s\<lparr>heap := (heap s)[a := (heap s ! a)\<lparr>collected := collected (heap s ! a) @ [r]\<rparr>]\<rparr>"
  have new: "NewVarunaRangechecker s = (Inr a, s)"
    using Cons.prems by (simp add: NewVarunaRangechecker_stored)
  have chk: "Check_at a (cv r) (bits r) s = (Inr (), ?s2)"
    using Cons.prems by (simp add: Check_at_open checkedVariable_eta)
  have p: "implements_kvstore ?s2" "kv ?s2 = Some (Checker a)" "a < length (heap ?s2)" "\<not> closed (heap ?s2 ! a)"
    using Cons.prems by simp_all
  have "check_calls rs ?s2 =
          (Inr (replicate (length rs) a),
           ?s2\<lparr>heap := (heap ?s2)[a := (heap ?s2 ! a)\<lparr>collected := collected (heap ?s2 ! a) @ rs\<rparr>]\<rparr>)"
    by (rule Cons.IH [OF p])
  then show ?case using new chk Cons.prems(3) by simp
qed

lemma check_calls_new_build:
  "check_calls (r # rs) (new_build b) =
     (Inr (replicate (Suc (length rs)) 0),
      \<lparr>implements_kvstore = True, kv = Some (Checker 0), deferred = [0],
       heap = [\<lparr>collected = r # rs, closed = False, lookups = zero_Lookup\<rparr>], backend = b\<rparr>)"
proof -
  let ?s1 = "\<lparr>implements_kvstore = True, kv = Some (Checker 0), deferred = [0],
       heap = [zero_varunaChecker], backend = b\<rparr> :: ('a, 'b) build"
  have new: "NewVarunaRangechecker (new_build b :: ('a, 'b) build) = (Inr 0, ?s1)"
    by (simp add: NewVarunaRangechecker_def new_build_def)
  have p: "implements_kvstore ?s1" "kv ?s1 = Some (Checker 0)" "0 < length (heap ?s1)" "\<not> closed (heap ?s1 ! 0)"
    by (simp_all add: zero_varunaChecker_def)
  have "check_calls (r # rs) ?s1 =
          (Inr (replicate (length (r # rs)) 0),
           ?s1\<lparr>heap := (heap ?s1)[0 := (heap ?s1 ! 0)\<lparr>collected := collected (heap ?s1 ! 0) @ (r # rs)\<rparr>]\<rparr>)"
    by (rule check_calls_stored [OF p])
  then have rest: "check_calls (r # rs) ?s1 =
          (Inr (replicate (Suc (length rs)) 0),
           \<lparr>implements_kvstore = True, kv = Some (Checker 0), deferred = [0],
            heap = [\<lparr>collected = r # rs, closed = False, lookups = zero_Lookup\<rparr>], backend = b\<rparr>)"
    by (simp add: zero_varunaChecker_def)
  have "check_calls (r # rs) (new_build b) = check_calls (r # rs) ?s1"
  proof -
    have a: "NewVarunaRangechecker ?s1 = (Inr 0, ?s1)" by (simp add: NewVarunaRangechecker_def)
    show ?thesis by (simp add: new a)
  qed
  then show ?thesis using rest by simp
qed

text \<open>
  Claim C10. Over a builder that implements the key-value store: the first
  \<^verbatim>\<open>NewVarunaRangechecker\<close> (nothing stored under the key) allocates a collector,
  stores its pointer and registers the finalization with \<^verbatim>\<open>Defer\<close> once; every call
  made with a collector stored returns that same pointer and changes nothing, so
  nothing more is deferred. Hence in a build that starts with nothing stored, every
  \<^verbatim>\<open>NewVarunaRangechecker(api).Check(x, n)\<close> obtains the same pointer, all requests
  accumulate, in order, in the one collector, and exactly one callback is registered.
\<close>

theorem rangechecker_single_instance:
  "(implements_kvstore s \<and> kv s = None \<longrightarrow>
      (\<exists>s1. NewVarunaRangechecker s = (Inr (length (heap s)), s1) \<and>
         kv s1 = Some (Checker (length (heap s))) \<and>
         deferred s1 = deferred s @ [length (heap s)] \<and>
         heap s1 = heap s @ [zero_varunaChecker] \<and>
         NewVarunaRangechecker s1 = (Inr (length (heap s)), s1))) \<and>
   (implements_kvstore s \<and> kv s = Some (Checker a) \<longrightarrow> NewVarunaRangechecker s = (Inr a, s)) \<and>
   (\<exists>s2. check_calls (r # rs) (new_build b) = (Inr (replicate (Suc (length rs)) 0), s2) \<and>
      kv s2 = Some (Checker 0) \<and> deferred s2 = [0] \<and>
      heap s2 = [\<lparr>collected = r # rs, closed = False, lookups = zero_Lookup\<rparr>] \<and>
      backend s2 = b \<and> NewVarunaRangechecker s2 = (Inr 0, s2))"
proof -
  have 1: "implements_kvstore s \<and> kv s = None \<longrightarrow>
      (\<exists>s1. NewVarunaRangechecker s = (Inr (length (heap s)), s1) \<and>
         kv s1 = Some (Checker (length (heap s))) \<and>
         deferred s1 = deferred s @ [length (heap s)] \<and>
         heap s1 = heap s @ [zero_varunaChecker] \<and>
         NewVarunaRangechecker s1 = (Inr (length (heap s)), s1))"
    by (simp add: NewVarunaRangechecker_first NewVarunaRangechecker_stored)
  have 2: "implements_kvstore s \<and> kv s = Some (Checker a) \<longrightarrow> NewVarunaRangechecker s = (Inr a, s)"
    by (simp add: NewVarunaRangechecker_stored)
  have 3: "\<exists>s2. check_calls (r # rs) (new_build b) = (Inr (replicate (Suc (length rs)) 0), s2) \<and>
      kv s2 = Some (Checker 0) \<and> deferred s2 = [0] \<and>
      heap s2 = [\<lparr>collected = r # rs, closed = False, lookups = zero_Lookup\<rparr>] \<and>
      backend s2 = b \<and> NewVarunaRangechecker s2 = (Inr 0, s2)"
    unfolding check_calls_new_build by (simp add: NewVarunaRangechecker_stored)
  show ?thesis using 1 2 3 by blast
qed

theorem rangechecker_single_instance_witness:
  "implements_kvstore (new_build sym_start :: (sym, sym_state) build) \<and>
   kv (new_build sym_start :: (sym, sym_state) build) = None \<and>
   fst (NewVarunaRangechecker (new_build sym_start :: (sym, sym_state) build)) = Inr 0 \<and>
   deferred (snd (NewVarunaRangechecker (new_build sym_start :: (sym, sym_state) build))) = [0] \<and>
   fst (NewVarunaRangechecker (snd (NewVarunaRangechecker (new_build sym_start :: (sym, sym_state) build)))) = Inr 0 \<and>
   deferred (snd (NewVarunaRangechecker (snd (NewVarunaRangechecker (new_build sym_start :: (sym, sym_state) build))))) = [0] \<and>
   fst (check_calls batch_8_8_16 (new_build sym_start)) = Inr [0, 0, 0] \<and>
   deferred (snd (check_calls batch_8_8_16 (new_build sym_start))) = [0] \<and>
   map collected (heap (snd (check_calls batch_8_8_16 (new_build sym_start)))) = [batch_8_8_16]"
proof -
  let ?s = "new_build sym_start :: (sym, sym_state) build"
  have i: "implements_kvstore ?s" "kv ?s = None" "heap ?s = []" "deferred ?s = []"
    by (simp_all add: new_build_def)
  note t = rangechecker_single_instance [of ?s 0 "\<lparr>cv = Wire 1, bits = 8\<rparr>"
      "[\<lparr>cv = Wire 2, bits = 8\<rparr>, \<lparr>cv = Wire 3, bits = 16\<rparr>]" sym_start]
  from t i obtain s1 where s1: "NewVarunaRangechecker ?s = (Inr 0, s1)" "deferred s1 = [0]"
     "NewVarunaRangechecker s1 = (Inr 0, s1)"
    by auto
  from t obtain s2 where s2: "check_calls batch_8_8_16 ?s = (Inr [0, 0, 0], s2)" "deferred s2 = [0]"
     "heap s2 = [\<lparr>collected = batch_8_8_16, closed = False, lookups = zero_Lookup\<rparr>]"
    unfolding batch_8_8_16_def by auto
  show ?thesis using i s1 s2 by simp
qed

section \<open>GetLookupByBuilder after the finalization (C3)\<close>

lemma GetLookupByBuilder_Inr:
  "GetLookupByBuilder s = Inr l \<Longrightarrow>
     \<exists>a. kv s = Some (Checker a) \<and> a < length (heap s) \<and> closed (heap s ! a) \<and> l = lookups (heap s ! a)"
  by (auto simp: GetLookupByBuilder_def split: if_splits option.splits stored.splits)

lemma GetLookupByBuilder_open:
  "implements_kvstore s \<Longrightarrow> kv s = Some (Checker a) \<Longrightarrow> a < length (heap s) \<Longrightarrow>
     \<not> closed (heap s ! a) \<Longrightarrow> GetLookupByBuilder s = Inl (Panic ''checker is not closed'')"
  by (simp add: GetLookupByBuilder_def)

lemma one_request_build_eq:
  "one_request_build =
     \<lparr>implements_kvstore = True, kv = Some (Checker 0), deferred = [0],
      heap = [\<lparr>collected = one_request, closed = False, lookups = zero_Lookup\<rparr>],
      backend = sym_start\<rparr>"
  unfolding one_request_build_def one_request_def check_calls_new_build by simp


text \<open>
  Claim C3 fails on the code. \<^verbatim>\<open>GetLookupByBuilder\<close> does panic with "checker is not
  closed" while the collector is open. But the finalization closes the collector on every
  path: for one request of 8 bits (limb width 2, so \<open>ceil(8/2) = 4\<close> limbs) and a builder
  in which the third limb has no linear canonical form, the finalization returns the
  error "unhandled type of variable", and \<^verbatim>\<open>GetLookupByBuilder\<close> then succeeds and
  returns the Lookup as the loop left it, with table size 4 and 2 of the 4 members. A
  second finalization is a no-op that returns successfully and leaves that Lookup in
  place. With a builder in which every limb has a linear canonical form the same
  request gives all 4 members.
\<close>

theorem GetLookup_partial_after_failed_finalization:
  "GetLookupByBuilder one_request_build = Inl (Panic ''checker is not closed'') \<and>
   fst (Finalize_at sym_partial 0 one_request_build) = Inl (Error ''unhandled type of variable'') \<and>
   GetLookupByBuilder (snd (Finalize_at sym_partial 0 one_request_build))
     = Inr \<lparr>NbTable = 4, members = [[\<lparr>CID = 1, VID = 4\<rparr>], [\<lparr>CID = 1, VID = 5\<rparr>]]\<rparr> \<and>
   fst (Finalize_at sym_partial 0 (snd (Finalize_at sym_partial 0 one_request_build))) = Inr () \<and>
   GetLookupByBuilder (snd (Finalize_at sym_partial 0 (snd (Finalize_at sym_partial 0 one_request_build))))
     = Inr \<lparr>NbTable = 4, members = [[\<lparr>CID = 1, VID = 4\<rparr>], [\<lparr>CID = 1, VID = 5\<rparr>]]\<rparr> \<and>
   getOptimalBasewidth one_request = 2 \<and> ceil_div 8 2 = 4 \<and>
   fst (Finalize_at sym_r1cs 0 one_request_build) = Inr () \<and>
   GetLookupByBuilder (snd (Finalize_at sym_r1cs 0 one_request_build))
     = Inr \<lparr>NbTable = 4, members = [[\<lparr>CID = 1, VID = 4\<rparr>], [\<lparr>CID = 1, VID = 5\<rparr>],
                                       [\<lparr>CID = 1, VID = 6\<rparr>], [\<lparr>CID = 1, VID = 7\<rparr>]]\<rparr>"
proof -
  have 0: "GetLookupByBuilder one_request_build = Inl (Panic ''checker is not closed'')"
    by (simp add: one_request_build_eq GetLookupByBuilder_def)
  have 1: "fst (Finalize_at sym_partial 0 one_request_build) = Inl (Error ''unhandled type of variable'')"
    unfolding one_request_build_eq one_request_def sym_partial_def by code_simp
  have 2: "GetLookupByBuilder (snd (Finalize_at sym_partial 0 one_request_build))
     = Inr \<lparr>NbTable = 4, members = [[\<lparr>CID = 1, VID = 4\<rparr>], [\<lparr>CID = 1, VID = 5\<rparr>]]\<rparr>"
    unfolding one_request_build_eq one_request_def sym_partial_def by code_simp
  have 3: "fst (Finalize_at sym_partial 0 (snd (Finalize_at sym_partial 0 one_request_build))) = Inr ()"
    unfolding one_request_build_eq one_request_def sym_partial_def by code_simp
  have 4: "GetLookupByBuilder (snd (Finalize_at sym_partial 0 (snd (Finalize_at sym_partial 0 one_request_build))))
     = Inr \<lparr>NbTable = 4, members = [[\<lparr>CID = 1, VID = 4\<rparr>], [\<lparr>CID = 1, VID = 5\<rparr>]]\<rparr>"
    unfolding one_request_build_eq one_request_def sym_partial_def by code_simp
  have 5: "getOptimalBasewidth one_request = 2"
    unfolding getOptimalBasewidth_def one_request_def by code_simp
  have 6: "ceil_div 8 2 = 4" by (simp add: ceil_div_def)
  have 7: "fst (Finalize_at sym_r1cs 0 one_request_build) = Inr ()"
    unfolding one_request_build_eq one_request_def sym_r1cs_def by code_simp
  have 8: "GetLookupByBuilder (snd (Finalize_at sym_r1cs 0 one_request_build))
     = Inr \<lparr>NbTable = 4, members = [[\<lparr>CID = 1, VID = 4\<rparr>], [\<lparr>CID = 1, VID = 5\<rparr>],
                                       [\<lparr>CID = 1, VID = 6\<rparr>], [\<lparr>CID = 1, VID = 7\<rparr>]]\<rparr>"
    unfolding one_request_build_eq one_request_def sym_r1cs_def by code_simp
  show ?thesis using 0 1 2 3 4 5 6 7 8 by simp
qed

section \<open>The file block of the exporters\<close>

text \<open>
  An exporter's file block succeeds exactly when the file is created, the value is
  encoded, and the write of the encoded bytes to the created file succeeds.
\<close>

lemma write_file_Inr_iff:
  "write_file os marshal filePath raw = Inr () \<longleftrightarrow>
     (\<exists>h got. Create os filePath = Inr h \<and> marshal raw = Inr got \<and> Write os h got = None)"
  by (auto simp: write_file_def os_Create_ignoring_error_def File_Write_def Let_def
      split: sum.splits option.splits)

section \<open>The export of the Lookup (C9)\<close>

text \<open>
  The table size of a collector's Lookup is 0 or \<open>2^w\<close> with \<open>w\<close> in \<open>[2, 17]\<close> in
  every state the collector can reach; in particular it is at most \<open>2^17\<close>.
\<close>

lemma handle_NbTable:
  assumes "0 \<le> NbTable (lookups c)" "NbTable (lookups c) \<le> 2 ^ 17"
    and "handleVarunaRangeCheck api c b = (r, c1, b1)"
  shows "0 \<le> NbTable (lookups c1) \<and> NbTable (lookups c1) \<le> 2 ^ 17"
proof (cases "closed c \<or> collected c = []")
  case True
  then have "lookups c1 = lookups c"
    using assms(3) by (auto simp: handleVarunaRangeCheck_def split: if_splits)
  then show ?thesis using assms by simp
next
  case False
  let ?w = "getOptimalBasewidth (collected c)"
  obtain rd b2 where hd: "handle_decompose api ?w (collected c) [] b = (rd, b2)"
    by (cases "handle_decompose api ?w (collected c) [] b")
  show ?thesis
  proof (cases rd)
    case (Inl f)
    then have "lookups c1 = lookups c"
      using assms(3) False hd by (auto simp: handleVarunaRangeCheck_def Let_def)
    then show ?thesis using assms by simp
  next
    case (Inr d)
    have "?w \<noteq> 0"
    proof
      assume "?w = 0"
      then have "handle_decompose api ?w (collected c) [] b = (Inl (Panic ''integer divide by zero''), b)"
        using False by (simp add: handle_decompose_zero)
      then show False using hd Inr by simp
    qed
    then have w: "2 \<le> ?w" "?w \<le> 17" using getOptimalBasewidth_range [of "collected c"] by auto
    have n: "NbTable (lookups c1) = shl1 ?w"
      using assms(3) False hd Inr
      by (auto simp: handleVarunaRangeCheck_def Let_def split: prod.splits option.splits)
    have "nat ?w \<le> 17" using w by simp
    then have "(2::int) ^ nat ?w \<le> 2 ^ 17" by (intro power_increasing) simp_all
    moreover have "(0::int) \<le> 2 ^ nat ?w" by simp
    ultimately show ?thesis unfolding n shl1_width [OF w] by simp
  qed
qed

lemma reachable_NbTable:
  "reachable api c \<Longrightarrow> 0 \<le> NbTable (lookups c) \<and> NbTable (lookups c) \<le> 2 ^ 17"
proof (induction rule: reachable.induct)
  case fresh
  then show ?case by (simp add: zero_varunaChecker_def zero_Lookup_def)
next
  case (checked c x n c1)
  then show ?case by (auto simp: Check_def split: if_splits)
next
  case (finalized c b r c1 b1)
  then show ?case using handle_NbTable [OF _ _ finalized.hyps(2)] by simp
qed


lemma lookup_side_map_of:
  "lookup_side fr r1cs ts m =
     m ++ map_of (rev (map (\<lambda>t. (uint (VID t), Bits fr (copy4 (GetCoefficient r1cs (uint (CID t)))))) ts))"
proof (induction ts arbitrary: m)
  case Nil
  then show ?case by simp
next
  case (Cons t ts)
  let ?f = "\<lambda>t. (uint (VID t), Bits fr (copy4 (GetCoefficient r1cs (uint (CID t)))))"
  have "lookup_side fr r1cs (t # ts) m = lookup_side fr r1cs ts (m(fst (?f t) \<mapsto> snd (?f t)))"
    by (simp add: Let_def)
  also have "\<dots> = m(fst (?f t) \<mapsto> snd (?f t)) ++ map_of (rev (map ?f ts))"
    by (rule Cons.IH)
  also have "m(fst (?f t) \<mapsto> snd (?f t)) = m ++ map_of [?f t]"
    by simp
  also have "(m ++ map_of [?f t]) ++ map_of (rev (map ?f ts)) = m ++ map_of (rev (map ?f ts) @ [?f t])"
    by (simp only: map_of_append map_add_assoc)
  finally show ?case by simp
qed

lemma upto_from_0_length: "length [0..n - 1] = nat n"
  by simp

lemma upto_from_0_nth: "i < nat n \<Longrightarrow> [0..n - 1] ! i = int i"
  by (simp add: nth_upto)

lemma makeslice_ok_table: "0 \<le> n \<Longrightarrow> n \<le> 2 ^ 32 \<Longrightarrow> makeslice_ok 12 n"
  by (simp add: makeslice_ok_def)

text \<open>
  Claim C9. For every Lookup with table size \<open>T\<close> (from 0 to \<open>2^32\<close>, which covers
  every finalized Lookup: 0 or \<open>2^w\<close> with \<open>w\<close> in \<open>[2, 17]\<close>) and members \<open>M\<close>, the
  lookup exporter builds a value with exactly \<open>T\<close> table rows, row \<open>i\<close> being
  \<open>(i, 0, 0)\<close>, followed by one constraint row per member of \<open>M\<close> in member order; in
  each row the \<open>A\<close> map has exactly the member's variable ids as keys, each mapped to
  the regular form of the coefficient the system's table gives for the term (the last
  term of a variable id wins), and the \<open>B\<close> and \<open>C\<close> maps are empty. The exporter
  returns successfully exactly when the file is created, this value is encoded, and the
  encoded bytes are written to the created file.
\<close>

theorem SerializeLookup_shape:
  assumes "0 \<le> NbTable lookup" "NbTable lookup \<le> 2 ^ 32"
  shows "\<exists>raw. SerializeLookup_raw fr lookup r1cs = Inr raw \<and>
         (SerializeLookup fr os marshal lookup r1cs filePath = Inr () \<longleftrightarrow>
            (\<exists>h got. Create os filePath = Inr h \<and> marshal raw = Inr got \<and> Write os h got = None)) \<and>
         length (Table raw) = nat (NbTable lookup) \<and>
         (\<forall>i < nat (NbTable lookup).
            Table raw ! i = (of_nat i, 0, 0) \<and> unat (fst (Table raw ! i)) = i) \<and>
         length (Constraints raw) = length (members lookup) \<and>
         (\<forall>k < length (members lookup).
            raw_A (Constraints raw ! k)
              = map_of (rev (map (\<lambda>t. (uint (VID t), Bits fr (copy4 (GetCoefficient r1cs (uint (CID t))))))
                               (members lookup ! k))) \<and>
            dom (raw_A (Constraints raw ! k)) = (\<lambda>t. uint (VID t)) ` set (members lookup ! k) \<and>
            raw_B (Constraints raw ! k) = Map.empty \<and>
            raw_C (Constraints raw ! k) = Map.empty)"
proof -
  define raw where "raw =
    \<lparr>Table = map (\<lambda>i. (word_of_int i :: 32 word, 0 :: 32 word, 0 :: 32 word)) [0..NbTable lookup - 1],
     Constraints =
       map (\<lambda>lc. \<lparr>raw_A = lookup_side fr r1cs lc Map.empty, raw_B = Map.empty, raw_C = Map.empty\<rparr>)
         (members lookup)\<rparr>"
  let ?f = "\<lambda>t. (uint (VID t), Bits fr (copy4 (GetCoefficient r1cs (uint (CID t)))))"
  have ok: "makeslice_ok 12 (NbTable lookup)" using assms by (rule makeslice_ok_table)
  have 0: "SerializeLookup_raw fr lookup r1cs = Inr raw"
    using ok by (simp add: SerializeLookup_raw_def raw_def)
  have 1: "SerializeLookup fr os marshal lookup r1cs filePath = Inr () \<longleftrightarrow>
            (\<exists>h got. Create os filePath = Inr h \<and> marshal raw = Inr got \<and> Write os h got = None)"
    by (simp add: SerializeLookup_def 0 write_file_Inr_iff)
  have 2: "length (Table raw) = nat (NbTable lookup)"
    by (simp add: raw_def)
  have 3: "Table raw ! i = (of_nat i, 0, 0) \<and> unat (fst (Table raw ! i)) = i" if "i < nat (NbTable lookup)" for i
  proof -
    have "Table raw ! i = (word_of_int (int i), 0, 0)"
      using that by (simp add: raw_def upto_from_0_nth)
    then have t: "Table raw ! i = (of_nat i, 0, 0)" by simp
    have "i < 2 ^ 32" using that assms by (simp add: nat_less_iff)
    then have "unat (of_nat i :: 32 word) = i" by (simp add: unat_of_nat)
    then show ?thesis using t by simp
  qed
  have 4: "length (Constraints raw) = length (members lookup)"
    by (simp add: raw_def)
  have 5: "raw_A (Constraints raw ! k) = map_of (rev (map ?f (members lookup ! k))) \<and>
           dom (raw_A (Constraints raw ! k)) = (\<lambda>t. uint (VID t)) ` set (members lookup ! k) \<and>
           raw_B (Constraints raw ! k) = Map.empty \<and> raw_C (Constraints raw ! k) = Map.empty"
    if "k < length (members lookup)" for k
  proof -
    have a: "raw_A (Constraints raw ! k) = map_of (rev (map ?f (members lookup ! k)))"
      using that by (simp add: raw_def lookup_side_map_of)
    have "dom (map_of (rev (map ?f (members lookup ! k)))) = (\<lambda>t. uint (VID t)) ` set (members lookup ! k)"
      by (simp add: dom_map_of_conv_image_fst image_image)
    then show ?thesis using a that by (simp add: raw_def)
  qed
  have "SerializeLookup_raw fr lookup r1cs = Inr raw \<and>
         (SerializeLookup fr os marshal lookup r1cs filePath = Inr () \<longleftrightarrow>
            (\<exists>h got. Create os filePath = Inr h \<and> marshal raw = Inr got \<and> Write os h got = None)) \<and>
         length (Table raw) = nat (NbTable lookup) \<and>
         (\<forall>i < nat (NbTable lookup).
            Table raw ! i = (of_nat i, 0, 0) \<and> unat (fst (Table raw ! i)) = i) \<and>
         length (Constraints raw) = length (members lookup) \<and>
         (\<forall>k < length (members lookup).
            raw_A (Constraints raw ! k) = map_of (rev (map ?f (members lookup ! k))) \<and>
            dom (raw_A (Constraints raw ! k)) = (\<lambda>t. uint (VID t)) ` set (members lookup ! k) \<and>
            raw_B (Constraints raw ! k) = Map.empty \<and>
            raw_C (Constraints raw ! k) = Map.empty)"
    using 0 1 2 3 4 5 by blast
  then show ?thesis by (rule exI)
qed

lemma toy_lookup_raw: "SerializeLookup_raw toy_fr toy_lookup toy_r1cs = Inr toy_lookupRaw"
  by (simp add: SerializeLookup_raw_def makeslice_ok_def toy_lookup_def toy_lookupRaw_def
      toy_fr_def toy_r1cs_def copy4_def upto.simps)

theorem SerializeLookup_shape_witness:
  "0 \<le> NbTable toy_lookup \<and> NbTable toy_lookup \<le> 2 ^ 32 \<and>
   SerializeLookup_raw toy_fr toy_lookup toy_r1cs = Inr toy_lookupRaw \<and>
   Create (os_accepts [0, 1, 2, 3, 1]) ''lookup'' = Inr 3 \<and>
   toy_marshal_lookup toy_lookupRaw = Inr [0, 1, 2, 3, 1] \<and>
   Write (os_accepts [0, 1, 2, 3, 1]) 3 [0, 1, 2, 3, 1] = None \<and>
   SerializeLookup toy_fr (os_accepts [0, 1, 2, 3, 1]) toy_marshal_lookup toy_lookup toy_r1cs ''lookup'' = Inr () \<and>
   SerializeLookup toy_fr (os_accepts [0, 1, 2, 3]) toy_marshal_lookup toy_lookup toy_r1cs ''lookup'' \<noteq> Inr () \<and>
   length (Table toy_lookupRaw) = 4 \<and> length (Constraints toy_lookupRaw) = 1 \<and>
   raw_A (Constraints toy_lookupRaw ! 0) 4 = Some (1, 0, 0, 0) \<and>
   dom (raw_A (Constraints toy_lookupRaw ! 0)) = {4} \<and>
   raw_B (Constraints toy_lookupRaw ! 0) = Map.empty \<and>
   raw_C (Constraints toy_lookupRaw ! 0) = Map.empty"
proof -
  have h: "0 \<le> NbTable toy_lookup" "NbTable toy_lookup \<le> 2 ^ 32" by (simp_all add: toy_lookup_def)
  have c: "Create (os_accepts [0, 1, 2, 3, 1]) ''lookup'' = Inr 3"
    "Write (os_accepts [0, 1, 2, 3, 1]) 3 [0, 1, 2, 3, 1] = None"
    by (simp_all add: os_accepts_def)
  have m: "toy_marshal_lookup toy_lookupRaw = Inr [0, 1, 2, 3, 1]"
    by (simp add: toy_marshal_lookup_def toy_lookupRaw_def)
  from SerializeLookup_shape [OF h, of toy_fr toy_r1cs "os_accepts [0, 1, 2, 3, 1]" toy_marshal_lookup "''lookup''"]
  have good: "SerializeLookup toy_fr (os_accepts [0, 1, 2, 3, 1]) toy_marshal_lookup toy_lookup toy_r1cs ''lookup'' = Inr ()"
    unfolding toy_lookup_raw using c m by auto
  from SerializeLookup_shape [OF h, of toy_fr toy_r1cs "os_accepts [0, 1, 2, 3]" toy_marshal_lookup "''lookup''"]
  have bad: "SerializeLookup toy_fr (os_accepts [0, 1, 2, 3]) toy_marshal_lookup toy_lookup toy_r1cs ''lookup'' \<noteq> Inr ()"
    unfolding toy_lookup_raw using m by (auto simp: os_accepts_def)
  have v: "length (Table toy_lookupRaw) = 4" "length (Constraints toy_lookupRaw) = 1"
    "raw_A (Constraints toy_lookupRaw ! 0) 4 = Some (1, 0, 0, 0)"
    "dom (raw_A (Constraints toy_lookupRaw ! 0)) = {4}"
    "raw_B (Constraints toy_lookupRaw ! 0) = Map.empty"
    "raw_C (Constraints toy_lookupRaw ! 0) = Map.empty"
    by (simp_all add: toy_lookupRaw_def)
  show ?thesis using h toy_lookup_raw c m good bad v by simp
qed

section \<open>The export of the witness (C2)\<close>

lemma uint_of_int_id: "0 \<le> x \<Longrightarrow> x < 2 ^ 63 \<Longrightarrow> uint_of_int x = x"
  by (simp add: uint_of_int_def)

lemma SerializeAssignment_Inr_iff:
  "SerializeAssignment fr os marshal W filePath = Inr () \<longleftrightarrow>
     (\<exists>w0 ws h got. W = w0 # ws \<and> Create os filePath = Inr h \<and>
        marshal \<lparr>Variables = map (Bits fr) ws, PrimaryInputSize = 0, AuxiliaryInputSize = 0\<rparr> = Inr got \<and>
        Write os h got = None)"
  by (cases W) (auto simp: SerializeAssignment_def SerializeAssignment_raw_def write_file_Inr_iff)

text \<open>
  Claim C2, as amended. The witness exporter of \<^verbatim>\<open>export_utils.go\<close> returns
  successfully exactly when the witness is not empty, the file is created, and the
  encoding of the following value is written to it: the regular forms of \<open>W[1:]\<close>, which
  are \<open>len(W) - 1\<close> elements, and two size fields that are always 0 (this exporter does
  not receive the constraint system). The variant of the exporter that receives the
  constraint system writes the encoding of the builder's public variable count as the
  public-input count together with all \<open>len(W)\<close> elements, the constant at index 0
  included. The JSON exporter writes all \<open>len(W)\<close> elements and two sizes 0.
\<close>

theorem SerializeAssignment_exported:
  "(SerializeAssignment fr os marshal W filePath = Inr () \<longleftrightarrow>
      (\<exists>w0 ws h got. W = w0 # ws \<and> Create os filePath = Inr h \<and>
         marshal \<lparr>Variables = map (Bits fr) ws, PrimaryInputSize = 0, AuxiliaryInputSize = 0\<rparr> = Inr got \<and>
         Write os h got = None)) \<and>
   (W \<noteq> [] \<longrightarrow>
      (\<exists>raw. SerializeAssignment_raw fr W = Inr raw \<and>
         Variables raw = map (Bits fr) (tl W) \<and>
         length (Variables raw) = length W - 1 \<and>
         PrimaryInputSize raw = 0 \<and> AuxiliaryInputSize raw = 0)) \<and>
   (SerializeAssignment_v2 fr os marshal2 r1cs W filePath = Inr () \<longleftrightarrow>
      (\<exists>h got. Create os filePath = Inr h \<and>
         marshal2 \<lparr>Variables_v2 = map (Bits fr) W,
                   NumPublicInputs = uint_of_int (GetNbPublicVariables r1cs)\<rparr> = Inr got \<and>
         Write os h got = None)) \<and>
   Variables_v2 (SerializeAssignment_v2_raw fr r1cs W) = map (Bits fr) W \<and>
   length (Variables_v2 (SerializeAssignment_v2_raw fr r1cs W)) = length W \<and>
   (0 \<le> GetNbPublicVariables r1cs \<and> GetNbPublicVariables r1cs < 2 ^ 63 \<longrightarrow>
      NumPublicInputs (SerializeAssignment_v2_raw fr r1cs W) = GetNbPublicVariables r1cs) \<and>
   (SerializeAssignment_json os marshal W filePath = Inr () \<longleftrightarrow>
      (\<exists>h got. Create os filePath = Inr h \<and>
         marshal \<lparr>Variables = W, PrimaryInputSize = 0, AuxiliaryInputSize = 0\<rparr> = Inr got \<and>
         Write os h got = None))"
proof -
  have 1: "W \<noteq> [] \<longrightarrow>
      (\<exists>raw. SerializeAssignment_raw fr W = Inr raw \<and>
         Variables raw = map (Bits fr) (tl W) \<and>
         length (Variables raw) = length W - 1 \<and>
         PrimaryInputSize raw = 0 \<and> AuxiliaryInputSize raw = 0)"
    by (cases W) (simp_all add: SerializeAssignment_raw_def)
  have 2: "SerializeAssignment_v2 fr os marshal2 r1cs W filePath = Inr () \<longleftrightarrow>
      (\<exists>h got. Create os filePath = Inr h \<and>
         marshal2 \<lparr>Variables_v2 = map (Bits fr) W,
                   NumPublicInputs = uint_of_int (GetNbPublicVariables r1cs)\<rparr> = Inr got \<and>
         Write os h got = None)"
    by (simp add: SerializeAssignment_v2_def SerializeAssignment_v2_raw_def write_file_Inr_iff)
  have 3: "Variables_v2 (SerializeAssignment_v2_raw fr r1cs W) = map (Bits fr) W"
    "length (Variables_v2 (SerializeAssignment_v2_raw fr r1cs W)) = length W"
    by (simp_all add: SerializeAssignment_v2_raw_def)
  have 4: "0 \<le> GetNbPublicVariables r1cs \<and> GetNbPublicVariables r1cs < 2 ^ 63 \<longrightarrow>
      NumPublicInputs (SerializeAssignment_v2_raw fr r1cs W) = GetNbPublicVariables r1cs"
    by (simp add: SerializeAssignment_v2_raw_def uint_of_int_id)
  have 5: "SerializeAssignment_json os marshal W filePath = Inr () \<longleftrightarrow>
      (\<exists>h got. Create os filePath = Inr h \<and>
         marshal \<lparr>Variables = W, PrimaryInputSize = 0, AuxiliaryInputSize = 0\<rparr> = Inr got \<and>
         Write os h got = None)"
    by (simp add: SerializeAssignment_json_def SerializeAssignment_json_raw_def write_file_Inr_iff)
  show ?thesis using SerializeAssignment_Inr_iff [of fr os marshal W filePath] 1 2 3 4 5 by blast
qed

theorem SerializeAssignment_exported_witness:
  "toy_W \<noteq> [] \<and> 0 \<le> GetNbPublicVariables toy_r1cs \<and> GetNbPublicVariables toy_r1cs < 2 ^ 63 \<and>
   SerializeAssignment_raw toy_fr toy_W
     = Inr \<lparr>Variables = [(7, 0, 0, 0)], PrimaryInputSize = 0, AuxiliaryInputSize = 0\<rparr> \<and>
   SerializeAssignment toy_fr (os_accepts [1, 0]) toy_marshal_assignment toy_W ''witness'' = Inr () \<and>
   SerializeAssignment toy_fr (os_accepts [2, 0]) toy_marshal_assignment toy_W ''witness'' \<noteq> Inr () \<and>
   NumPublicInputs (SerializeAssignment_v2_raw toy_fr toy_r1cs toy_W) = 1 \<and>
   Variables_v2 (SerializeAssignment_v2_raw toy_fr toy_r1cs toy_W) = [(1, 0, 0, 0), (7, 0, 0, 0)] \<and>
   SerializeAssignment_v2 toy_fr (os_accepts [2, 1]) toy_marshal_assignment_v2 toy_r1cs toy_W ''witness'' = Inr () \<and>
   SerializeAssignment_json (os_accepts [2, 0]) toy_marshal_assignment toy_W ''witness'' = Inr ()"
proof -
  have h: "toy_W \<noteq> []" "0 \<le> GetNbPublicVariables toy_r1cs" "GetNbPublicVariables toy_r1cs < 2 ^ 63"
    by (simp_all add: toy_W_def toy_r1cs_def)
  have w: "toy_W = (1, 0, 0, 0) # [(7, 0, 0, 0)]" by (simp add: toy_W_def)
  note t1 = SerializeAssignment_exported [of toy_fr "os_accepts [1, 0]" toy_marshal_assignment toy_W
      "''witness''" toy_marshal_assignment_v2 toy_r1cs]
  note t2 = SerializeAssignment_exported [of toy_fr "os_accepts [2, 0]" toy_marshal_assignment toy_W
      "''witness''" toy_marshal_assignment_v2 toy_r1cs]
  note t3 = SerializeAssignment_exported [of toy_fr "os_accepts [2, 1]" toy_marshal_assignment toy_W
      "''witness''" toy_marshal_assignment_v2 toy_r1cs]
  from t1 h obtain raw where raw: "SerializeAssignment_raw toy_fr toy_W = Inr raw"
     "Variables raw = map (Bits toy_fr) (tl toy_W)" "PrimaryInputSize raw = 0" "AuxiliaryInputSize raw = 0"
    by blast
  have v: "Variables raw = [(7, 0, 0, 0)]" using raw(2) by (simp add: toy_W_def toy_fr_def)
  have r: "raw = \<lparr>Variables = [(7, 0, 0, 0)], PrimaryInputSize = 0, AuxiliaryInputSize = 0\<rparr>"
    using v raw(3,4) by (cases raw) simp
  have a: "SerializeAssignment toy_fr (os_accepts [1, 0]) toy_marshal_assignment toy_W ''witness'' = Inr ()"
    using t1 by (simp add: w os_accepts_def toy_marshal_assignment_def toy_fr_def)
  have b: "SerializeAssignment toy_fr (os_accepts [2, 0]) toy_marshal_assignment toy_W ''witness'' \<noteq> Inr ()"
    using t2 by (simp add: w os_accepts_def toy_marshal_assignment_def toy_fr_def)
  from t1 h have n: "NumPublicInputs (SerializeAssignment_v2_raw toy_fr toy_r1cs toy_W) = GetNbPublicVariables toy_r1cs"
    by blast
  from t1 have vs: "Variables_v2 (SerializeAssignment_v2_raw toy_fr toy_r1cs toy_W) = map (Bits toy_fr) toy_W"
    by blast
  have c: "SerializeAssignment_v2 toy_fr (os_accepts [2, 1]) toy_marshal_assignment_v2 toy_r1cs toy_W ''witness'' = Inr ()"
    using t3 by (simp add: toy_W_def toy_r1cs_def uint_of_int_def os_accepts_def toy_marshal_assignment_v2_def)
  have d: "SerializeAssignment_json (os_accepts [2, 0]) toy_marshal_assignment toy_W ''witness'' = Inr ()"
    using t2 by (simp add: toy_W_def os_accepts_def toy_marshal_assignment_def)
  show ?thesis using h raw(1) r a b n vs c d by (simp add: toy_r1cs_def toy_W_def toy_fr_def)
qed

text \<open>
  No exporter does both: for a witness of two entries and a system with one public
  variable, the first writes 1 element and the count 0, not 1; the second writes the
  count 1 and 2 elements, not 1; the JSON exporter writes 2 elements and the count 0.
\<close>

theorem SerializeAssignment_counterexample:
  "length toy_W = 2 \<and> GetNbPublicVariables toy_r1cs = 1 \<and>
   SerializeAssignment_raw toy_fr toy_W
     = Inr \<lparr>Variables = [(7, 0, 0, 0)], PrimaryInputSize = 0, AuxiliaryInputSize = 0\<rparr> \<and>
   PrimaryInputSize \<lparr>Variables = [(7, 0, 0, 0)], PrimaryInputSize = 0, AuxiliaryInputSize = 0\<rparr>
     \<noteq> GetNbPublicVariables toy_r1cs \<and>
   SerializeAssignment toy_fr (os_accepts [1, 0]) toy_marshal_assignment toy_W ''witness'' = Inr () \<and>
   SerializeAssignment toy_fr (os_accepts [1, 1]) toy_marshal_assignment toy_W ''witness'' \<noteq> Inr () \<and>
   length (Variables_v2 (SerializeAssignment_v2_raw toy_fr toy_r1cs toy_W)) = 2 \<and>
   length (Variables_v2 (SerializeAssignment_v2_raw toy_fr toy_r1cs toy_W)) \<noteq> length toy_W - 1 \<and>
   SerializeAssignment_v2 toy_fr (os_accepts [2, 1]) toy_marshal_assignment_v2 toy_r1cs toy_W ''witness'' = Inr () \<and>
   SerializeAssignment_v2 toy_fr (os_accepts [1, 1]) toy_marshal_assignment_v2 toy_r1cs toy_W ''witness'' \<noteq> Inr () \<and>
   SerializeAssignment_json (os_accepts [2, 0]) toy_marshal_assignment toy_W ''witness'' = Inr () \<and>
   SerializeAssignment_json (os_accepts [1, 1]) toy_marshal_assignment toy_W ''witness'' \<noteq> Inr ()"
  by (simp add: SerializeAssignment_Inr_iff SerializeAssignment_v2_def SerializeAssignment_json_def
      SerializeAssignment_json_raw_def write_file_Inr_iff
      SerializeAssignment_raw_def SerializeAssignment_v2_raw_def toy_W_def toy_fr_def toy_r1cs_def
      uint_of_int_def os_accepts_def toy_marshal_assignment_def toy_marshal_assignment_v2_def)

section \<open>I/O failures of the exporters (C4)\<close>

lemma write_file_fails:
  assumes "create_or_write_fails os marshal filePath raw"
  shows "returns_error (write_file os marshal filePath raw)"
proof (cases "marshal raw")
  case (Inl err)
  then show ?thesis by (simp add: write_file_def returns_error_def)
next
  case (Inr got)
  show ?thesis
  proof (cases "Create os filePath")
    case (Inl err)
    then show ?thesis
      using Inr by (simp add: write_file_def returns_error_def os_Create_ignoring_error_def File_Write_def)
  next
    case h: (Inr h)
    then have "Write os h got \<noteq> None"
      using assms Inr by (simp add: create_or_write_fails_def)
    then obtain e where "Write os h got = Some e" by (cases "Write os h got") simp_all
    then show ?thesis
      using Inr h by (simp add: write_file_def returns_error_def os_Create_ignoring_error_def File_Write_def)
  qed
qed

lemma write_file_error_as_is:
  "Create os filePath = Inr h \<Longrightarrow> marshal raw = Inr got \<Longrightarrow> Write os h got = Some e \<Longrightarrow>
     write_file os marshal filePath raw = Inl (Error e)"
  by (simp add: write_file_def os_Create_ignoring_error_def File_Write_def)

lemma write_file_close_unchecked:
  "Create os filePath = Inr h \<Longrightarrow> marshal raw = Inr got \<Longrightarrow> Write os h got = None \<Longrightarrow>
     write_file os marshal filePath raw = Inr ()"
  by (simp add: write_file_def os_Create_ignoring_error_def File_Write_def)

text \<open>
  What holds of claim C4: in each of the three exporters, once the value to encode is
  built, a failure to create the file or to write the encoded bytes makes the exporter
  return an error; a write error is returned as it is, a creation failure as the
  "invalid argument" error of the write on the \<^verbatim>\<open>nil\<close> file.
\<close>

theorem export_create_write_failures:
  "(makeslice_ok 24 (GetNbConstraints r1cs) \<and>
    SerializeR1CS_rows fr r1cs (GetR1Cs r1cs) [] = Inr r1csRaw \<and>
    create_or_write_fails os marshalR filePath r1csRaw \<longrightarrow>
      returns_error (SerializeR1CS fr os marshalR r1cs filePath)) \<and>
   (SerializeAssignment_raw fr W = Inr assignmentRaw \<and>
    create_or_write_fails os marshalA filePath assignmentRaw \<longrightarrow>
      returns_error (SerializeAssignment fr os marshalA W filePath)) \<and>
   (SerializeLookup_raw fr lookup r1cs = Inr lookupRaw \<and>
    create_or_write_fails os marshalL filePath lookupRaw \<longrightarrow>
      returns_error (SerializeLookup fr os marshalL lookup r1cs filePath)) \<and>
   (SerializeLookup_raw fr lookup r1cs = Inr lookupRaw \<and>
    Create os filePath = Inr h \<and> marshalL lookupRaw = Inr got \<and> Write os h got = Some e \<longrightarrow>
      SerializeLookup fr os marshalL lookup r1cs filePath = Inl (Error e))"
  by (simp add: SerializeR1CS_def SerializeAssignment_def SerializeLookup_def write_file_fails
      write_file_error_as_is)

theorem export_create_write_failures_witness:
  "SerializeLookup_raw toy_fr toy_lookup toy_r1cs = Inr toy_lookupRaw \<and>
   create_or_write_fails os_create_fails toy_marshal ''lookup'' toy_lookupRaw \<and>
   returns_error (SerializeLookup toy_fr os_create_fails toy_marshal toy_lookup toy_r1cs ''lookup'') \<and>
   SerializeLookup toy_fr os_create_fails toy_marshal toy_lookup toy_r1cs ''lookup''
     = Inl (Error ''invalid argument'') \<and>
   SerializeAssignment toy_fr os_create_fails toy_marshal toy_W ''witness'' = Inl (Error ''invalid argument'') \<and>
   SerializeR1CS toy_fr os_create_fails toy_marshal toy_r1cs ''r1cs'' = Inl (Error ''invalid argument'') \<and>
   SerializeLookup toy_fr os_write_fails toy_marshal toy_lookup toy_r1cs ''lookup''
     = Inl (Error ''no space left on device'')"
proof -
  have c: "create_or_write_fails os_create_fails toy_marshal ''lookup'' toy_lookupRaw"
    by (simp add: create_or_write_fails_def os_create_fails_def)
  have r: "returns_error (SerializeLookup toy_fr os_create_fails toy_marshal toy_lookup toy_r1cs ''lookup'')"
    using export_create_write_failures [where fr = toy_fr and r1cs = toy_r1cs and os = os_create_fails
        and filePath = "''lookup''" and lookup = toy_lookup and lookupRaw = toy_lookupRaw
        and marshalL = toy_marshal] c toy_lookup_raw
    by blast
  have l: "SerializeLookup toy_fr os_create_fails toy_marshal toy_lookup toy_r1cs ''lookup''
     = Inl (Error ''invalid argument'')"
    by (simp add: SerializeLookup_def toy_lookup_raw write_file_def os_Create_ignoring_error_def File_Write_def
        os_create_fails_def toy_marshal_def)
  have a: "SerializeAssignment toy_fr os_create_fails toy_marshal toy_W ''witness'' = Inl (Error ''invalid argument'')"
    by (simp add: SerializeAssignment_def SerializeAssignment_raw_def toy_W_def write_file_def
        os_Create_ignoring_error_def File_Write_def os_create_fails_def toy_marshal_def)
  have s: "SerializeR1CS toy_fr os_create_fails toy_marshal toy_r1cs ''r1cs'' = Inl (Error ''invalid argument'')"
    by code_simp
  have w: "SerializeLookup toy_fr os_write_fails toy_marshal toy_lookup toy_r1cs ''lookup''
     = Inl (Error ''no space left on device'')"
    using export_create_write_failures [where fr = toy_fr and r1cs = toy_r1cs and os = os_write_fails
        and filePath = "''lookup''" and lookup = toy_lookup and lookupRaw = toy_lookupRaw
        and marshalL = toy_marshal and h = 3 and got = "[160]"
        and e = "''no space left on device''"] toy_lookup_raw
    by (simp add: os_write_fails_def toy_marshal_def)
  show ?thesis using toy_lookup_raw c r l a s w by simp
qed

text \<open>
  Claim C4 fails on a failure of \<^verbatim>\<open>Close()\<close>: the file is created and written, the
  close reports an input/output error, and each of the three exporters returns
  \<^verbatim>\<open>nil\<close>.
\<close>

theorem export_close_failure_ignored:
  "File_Close os_close_fails (os_Create_ignoring_error os_close_fails ''lookup'') = Some ''input/output error'' \<and>
   SerializeLookup toy_fr os_close_fails toy_marshal toy_lookup toy_r1cs ''lookup'' = Inr () \<and>
   SerializeAssignment toy_fr os_close_fails toy_marshal toy_W ''witness'' = Inr () \<and>
   SerializeR1CS toy_fr os_close_fails toy_marshal toy_r1cs ''r1cs'' = Inr ()"
proof -
  have 1: "File_Close os_close_fails (os_Create_ignoring_error os_close_fails ''lookup'') = Some ''input/output error''"
    by (simp add: File_Close_def os_Create_ignoring_error_def os_close_fails_def)
  have 2: "SerializeLookup toy_fr os_close_fails toy_marshal toy_lookup toy_r1cs ''lookup'' = Inr ()"
    by (simp add: SerializeLookup_def toy_lookup_raw write_file_def os_Create_ignoring_error_def File_Write_def
        os_close_fails_def toy_marshal_def)
  have 3: "SerializeAssignment toy_fr os_close_fails toy_marshal toy_W ''witness'' = Inr ()"
    by (simp add: SerializeAssignment_def SerializeAssignment_raw_def toy_W_def write_file_def
        os_Create_ignoring_error_def File_Write_def os_close_fails_def toy_marshal_def)
  have 4: "SerializeR1CS toy_fr os_close_fails toy_marshal toy_r1cs ''r1cs'' = Inr ()"
    by code_simp
  show ?thesis using 1 2 3 4 by simp
qed

end
